theory Spec2Isabelle
  imports Complex_Main "HOL-Library.Sublist" "HOL-Library.Char_ord" "HOL-Library.List_Lexorder"
begin

section \<open>JavaScript values used by both components\<close>

text \<open>
  A number is modelled by the real it denotes, and a numeric field that may be absent from
  a parsed JSON object as \<open>real option\<close>, where \<open>None\<close> stands for \<open>undefined\<close> (and
  for the \<open>NaN\<close> that arithmetic on \<open>undefined\<close> gives). A number read from a document is
  the real its text denotes, and so is a literal of the source. Arithmetic is that of IEEE
  doubles, below: the operands are rounded to doubles, and the result is a double. A
  comparison with a literal is taken on the reals; it agrees with the comparison of the
  doubles for every number written with at most 15 significant digits, and for every
  double compared with 0.5, 60 or 80. Console output is left out everywhere.
\<close>

datatype error = TypeError | HttpError nat | NetworkError | FetchExhausted

text \<open>\<open>x > c\<close> for a possibly undefined \<open>x\<close>: a comparison with \<open>undefined\<close> is false.\<close>

definition js_gt :: "real option \<Rightarrow> real \<Rightarrow> bool" where
  "js_gt x c = (case x of None \<Rightarrow> False | Some v \<Rightarrow> v > c)"

text \<open>\<open>x || 0\<close> for a possibly undefined number.\<close>

definition or_zero :: "real option \<Rightarrow> real" where
  "or_zero x = (case x of None \<Rightarrow> 0 | Some v \<Rightarrow> v)"

subsection \<open>Arithmetic on doubles\<close>

text \<open>
  Rounding to the nearest integer, ties to the even one.
\<close>

definition rte :: "real \<Rightarrow> int" where
  "rte q =
     (let n = \<lfloor>q\<rfloor>; d = q - of_int n
      in if d < 1 / 2 then n else if 1 / 2 < d then n + 1 else if even n then n else n + 1)"

text \<open>
  The double nearest to a real, ties to even: with \<open>2 ^ e \<le> \<bar>x\<bar> < 2 ^ (e + 1)\<close> the
  doubles around \<open>x\<close> are the multiples of \<open>2 ^ (e - 52)\<close>. Overflow and subnormal numbers
  are not modelled: the percentages, scores, prices and volumes of this program are far
  from both.
\<close>

definition dbl :: "real \<Rightarrow> real" where
  "dbl x =
     (if x = 0 then 0
      else let u = 2 powr (of_int \<lfloor>log 2 \<bar>x\<bar>\<rfloor> - 52) in of_int (rte (x / u)) * u)"

text \<open>
  \<open>a + b\<close>, \<open>a - b\<close> and \<open>a / b\<close> on numbers: the operands are doubles, the exact result
  is rounded to a double. (\<open>a / b\<close> is only used with \<open>b\<close> a positive length.)
\<close>

definition dadd :: "real \<Rightarrow> real \<Rightarrow> real" where
  "dadd a b = dbl (dbl a + dbl b)"

definition dsub :: "real \<Rightarrow> real \<Rightarrow> real" where
  "dsub a b = dbl (dbl a - dbl b)"

definition ddiv :: "real \<Rightarrow> real \<Rightarrow> real" where
  "ddiv a b = dbl (dbl a / dbl b)"

subsection \<open>Strings\<close>

text \<open>\<open>String.prototype.toUpperCase\<close> on ASCII text.\<close>

definition toUpperCase :: "string \<Rightarrow> string" where
  "toUpperCase s =
     map (\<lambda>c. if CHR ''a'' \<le> c \<and> c \<le> CHR ''z'' then char_of (of_char c - (32::nat)) else c) s"

section \<open>The trading bot (vercel\_trading\_bot\_example.js)\<close>

subsection \<open>The insight document\<close>

record signal =
  sg_exchange :: string
  sg_asset :: string
  sg_direction :: "string option"
  sg_strength :: "real option"
  sg_confidence :: "real option"
  sg_data_type :: "string option"

record opportunity =
  op_asset :: string
  op_high_exchange :: string
  op_low_exchange :: string
  op_high_price :: "real option"
  op_low_price :: "real option"
  op_price_difference_pct :: "real option"

record exchange_health_entry =
  health_score :: "real option"

record market_overview =
  total_market_volume :: "real option"
  average_spreads_L5 :: "real option"
  market_volatility :: "real option"

text \<open>
  A key of the document that may be missing is an \<open>option\<close>. \<open>exchange_health\<close> is an
  object; \<open>Object.values\<close> walks it in insertion order, so it is an association list. A
  value of it may be \<open>null\<close>, here \<open>None\<close>.
\<close>

record insights =
  current_signals :: "signal list option"
  arbitrage_opportunities :: "opportunity list option"
  exchange_health :: "(string \<times> exchange_health_entry option) list option"
  overview :: "market_overview option"

subsection \<open>What the analyses return\<close>

text \<open>
  The \<open>timestamp\<close> (a clock read) and \<open>reason\<close> (a rendering of numbers the record already
  holds) fields of the source's objects are not modelled.
\<close>

record decision =
  dc_exchange :: string
  dc_asset :: string
  dc_action :: "string option"
  dc_strength :: "real option"
  dc_confidence :: "real option"
  dc_dataType :: "string option"

record arbitrage_action =
  ar_asset :: string
  buyExchange :: string
  sellExchange :: string
  buyPrice :: "real option"
  sellPrice :: "real option"
  grossProfitPct :: "real option"
  netProfitPct :: "real option"

record market_condition =
  overallHealth :: real
  healthStatus :: string
  totalVolume :: real
  avgSpread :: real
  volatility :: real
  recommendation :: string

text \<open>
  An action item is a string built from a fixed template; the model keeps the template
  as a constructor and the interpolated values as its arguments (the numbers unrounded).
\<close>

datatype action_item =
    WaitItem
  | ArbitrageItem string "real option"
  | SignalItem string string string "real option"
  | MarketItem string
  | HoldItem

record recommendations =
  marketCondition :: market_condition
  tradingSignals :: "decision list"
  arbitrageOpportunities :: "arbitrage_action list"
  actionItems :: "action_item list"

subsection \<open>analyzeSignals\<close>

definition strongSignal :: "signal \<Rightarrow> bool" where
  "strongSignal s \<longleftrightarrow> js_gt (sg_strength s) 0.7 \<and> js_gt (sg_confidence s) 0.6"

definition decisionOf :: "signal \<Rightarrow> decision" where
  "decisionOf s =
     \<lparr> dc_exchange = sg_exchange s, dc_asset = sg_asset s, dc_action = sg_direction s,
       dc_strength = sg_strength s, dc_confidence = sg_confidence s,
       dc_dataType = sg_data_type s \<rparr>"

text \<open>
  The \<open>forEach\<close> over the strong signals: each decision is pushed, then logged with
  \<open>decision.action.toUpperCase()\<close>, which raises a TypeError when the signal has no
  direction.
\<close>

fun signalsLoop :: "signal list \<Rightarrow> decision list \<Rightarrow> error + decision list" where
  "signalsLoop [] tradingDecisions = Inr tradingDecisions"
| "signalsLoop (s # rest) tradingDecisions =
     (let d = decisionOf s; pushed = tradingDecisions @ [d]
      in case dc_action d of
           None \<Rightarrow> Inl TypeError
         | Some _ \<Rightarrow> signalsLoop rest pushed)"

definition analyzeSignals :: "insights \<Rightarrow> error + decision list" where
  "analyzeSignals ins =
     (let signals = (case current_signals ins of None \<Rightarrow> [] | Some xs \<Rightarrow> xs);
          strongSignals = filter strongSignal signals
      in signalsLoop strongSignals [])"

subsection \<open>analyzeArbitrage\<close>

definition profitable :: "opportunity \<Rightarrow> bool" where
  "profitable opp \<longleftrightarrow> js_gt (op_price_difference_pct opp) 0.25"

definition arbitrageActionOf :: "opportunity \<Rightarrow> arbitrage_action" where
  "arbitrageActionOf opp =
     (let netProfit = map_option (\<lambda>p. dsub p 0.2) (op_price_difference_pct opp)
      in \<lparr> ar_asset = op_asset opp, buyExchange = op_low_exchange opp,
           sellExchange = op_high_exchange opp, buyPrice = op_low_price opp,
           sellPrice = op_high_price opp, grossProfitPct = op_price_difference_pct opp,
           netProfitPct = netProfit \<rparr>)"

text \<open>
  The \<open>forEach\<close> over the profitable opportunities: the action is pushed, then logged with
  \<open>action.buyPrice.toFixed(2)\<close> and \<open>action.sellPrice.toFixed(2)\<close>, which raise a TypeError
  when the opportunity carries no price.
\<close>

fun arbitrageLoop :: "opportunity list \<Rightarrow> arbitrage_action list \<Rightarrow> error + arbitrage_action list" where
  "arbitrageLoop [] arbitrageActions = Inr arbitrageActions"
| "arbitrageLoop (opp # rest) arbitrageActions =
     (let a = arbitrageActionOf opp; pushed = arbitrageActions @ [a]
      in case buyPrice a of
           None \<Rightarrow> Inl TypeError
         | Some _ \<Rightarrow>
             (case sellPrice a of
                None \<Rightarrow> Inl TypeError
              | Some _ \<Rightarrow> arbitrageLoop rest pushed))"

definition analyzeArbitrage :: "insights \<Rightarrow> error + arbitrage_action list" where
  "analyzeArbitrage ins =
     (let opportunities = (case arbitrage_opportunities ins of None \<Rightarrow> [] | Some xs \<Rightarrow> xs);
          profitableArbitrage = filter profitable opportunities
      in arbitrageLoop profitableArbitrage [])"

subsection \<open>analyzeMarketConditions\<close>

definition emptyOverview :: market_overview where
  "emptyOverview =
     \<lparr> total_market_volume = None, average_spreads_L5 = None, market_volatility = None \<rparr>"

definition getMarketRecommendation :: "real \<Rightarrow> market_overview \<Rightarrow> string" where
  "getMarketRecommendation health ov =
     (if health < 60 then ''CAUTION: Poor data quality, avoid trading''
      else
        let volatility = or_zero (market_volatility ov);
            avgSpread = or_zero (average_spreads_L5 ov)
        in if volatility > 0.05 then ''HIGH_VOLATILITY: Good for scalping, risky for holds''
           else if avgSpread < 0.01 then ''TIGHT_SPREADS: Good liquidity, favorable for trading''
           else if avgSpread > 0.05 then ''WIDE_SPREADS: Poor liquidity, trade with caution''
           else ''NORMAL_CONDITIONS: Standard trading environment'')"

definition healthStatusOf :: "real \<Rightarrow> string" where
  "healthStatusOf avgHealth =
     (if avgHealth > 80 then ''healthy'' else if avgHealth > 60 then ''degraded'' else ''poor'')"

text \<open>
  The \<open>map\<close> over \<open>Object.values(health)\<close>: reading \<open>health_score\<close> of a value that is
  \<open>null\<close> raises a TypeError; a missing score counts as 0.
\<close>

fun healthScores :: "(string \<times> exchange_health_entry option) list \<Rightarrow> error + real list" where
  "healthScores [] = Inr []"
| "healthScores ((name, h) # rest) =
     (case h of
        None \<Rightarrow> Inl TypeError
      | Some entry \<Rightarrow>
          (case healthScores rest of
             Inl e \<Rightarrow> Inl e
           | Inr scores \<Rightarrow> Inr (or_zero (health_score entry) # scores)))"

text \<open>The \<open>reduce\<close> from 0 and the division by the length, guarded against no score.\<close>

definition averageHealth :: "real list \<Rightarrow> real" where
  "averageHealth exchangeHealthScores =
     (if length exchangeHealthScores > 0
      then ddiv (foldl (\<lambda>a b. dadd a b) 0 exchangeHealthScores)
             (real (length exchangeHealthScores))
      else 0)"

definition analyzeMarketConditions :: "insights \<Rightarrow> error + market_condition" where
  "analyzeMarketConditions ins =
     (let health = (case exchange_health ins of None \<Rightarrow> [] | Some h \<Rightarrow> h);
          ov = (case overview ins of None \<Rightarrow> emptyOverview | Some v \<Rightarrow> v)
      in case healthScores health of
           Inl e \<Rightarrow> Inl e
         | Inr exchangeHealthScores \<Rightarrow>
             (let avgHealth = averageHealth exchangeHealthScores
              in Inr \<lparr> overallHealth = avgHealth,
                       healthStatus = healthStatusOf avgHealth,
                       totalVolume = or_zero (total_market_volume ov),
                       avgSpread = or_zero (average_spreads_L5 ov),
                       volatility = or_zero (market_volatility ov),
                       recommendation = getMarketRecommendation avgHealth ov \<rparr>))"

subsection \<open>generateActionItems\<close>

definition pushArbitrage :: "action_item list \<Rightarrow> arbitrage_action \<Rightarrow> action_item list" where
  "pushArbitrage actions arb = actions @ [ArbitrageItem (ar_asset arb) (netProfitPct arb)]"

text \<open>
  The item the second \<open>forEach\<close> pushes for a signal; \<open>signal.action.toUpperCase()\<close>
  raises when the signal has no action, which is \<open>None\<close> here.
\<close>

definition signalItemOf :: "decision \<Rightarrow> action_item option" where
  "signalItemOf d =
     (case dc_action d of
        None \<Rightarrow> None
      | Some a \<Rightarrow> Some (SignalItem (toUpperCase a) (dc_asset d) (dc_exchange d) (dc_strength d)))"

fun pushSignals :: "decision list \<Rightarrow> action_item list \<Rightarrow> error + action_item list" where
  "pushSignals [] actions = Inr actions"
| "pushSignals (d # rest) actions =
     (case signalItemOf d of
        None \<Rightarrow> Inl TypeError
      | Some item \<Rightarrow> pushSignals rest (actions @ [item]))"

definition generateActionItems ::
  "decision list \<Rightarrow> arbitrage_action list \<Rightarrow> market_condition \<Rightarrow> error + action_item list" where
  "generateActionItems signals arbitrage market =
     (if healthStatus market = ''poor'' then Inr ([] @ [WaitItem])
      else
        let highProfitArbitrage = filter (\<lambda>a. js_gt (netProfitPct a) 0.5) arbitrage;
            actions1 = foldl pushArbitrage [] highProfitArbitrage;
            veryStrongSignals = filter (\<lambda>s. js_gt (dc_strength s) 0.8) signals
        in case pushSignals veryStrongSignals actions1 of
             Inl e \<Rightarrow> Inl e
           | Inr actions2 \<Rightarrow>
               (let actions3 = actions2 @ [MarketItem (recommendation market)]
                in if length actions3 = 1 then Inr (actions3 @ [HoldItem]) else Inr actions3))"

subsection \<open>executeAnalysis\<close>

text \<open>
  \<open>executeAnalysis\<close> after \<open>getMLInsights\<close> has answered: \<open>None\<close> is the \<open>null\<close> of a failed
  retrieval, for which the method returns \<open>undefined\<close>. The push onto \<open>tradingHistory\<close> is
  not modelled.
\<close>

definition executeAnalysis :: "insights option \<Rightarrow> error + recommendations option" where
  "executeAnalysis fetched =
     (case fetched of
        None \<Rightarrow> Inr None
      | Some ins \<Rightarrow>
          (case analyzeSignals ins of
             Inl e \<Rightarrow> Inl e
           | Inr signals \<Rightarrow>
               (case analyzeArbitrage ins of
                  Inl e \<Rightarrow> Inl e
                | Inr arbitrage \<Rightarrow>
                    (case analyzeMarketConditions ins of
                       Inl e \<Rightarrow> Inl e
                     | Inr market \<Rightarrow>
                         (case generateActionItems signals arbitrage market of
                            Inl e \<Rightarrow> Inl e
                          | Inr items \<Rightarrow>
                              Inr (Some \<lparr> marketCondition = market, tradingSignals = signals,
                                          arbitrageOpportunities = arbitrage,
                                          actionItems = items \<rparr>))))))"

section \<open>The cache-busting fetcher (vercel\_cache\_solution.js)\<close>

subsection \<open>Records, responses and the world outside\<close>

text \<open>
  One parsed NDJSON line. \<open>JSON.parse\<close> may give any value; a field the value does not
  have reads as \<open>undefined\<close>, here \<open>None\<close>. The timestamp \<open>t\<close> is an ISO-8601 string,
  which JavaScript compares by code unit, as the lexicographic order on \<open>string\<close> does.
\<close>

record ndrecord =
  r_t :: "string option"
  r_mid :: "real option"
  r_spread_L5_pct :: "real option"
  r_vol_L50_bids :: "real option"
  r_vol_L50_asks :: "real option"

record metadata =
  md_url :: string
  md_timestamp :: "string option"
  md_recordCount :: nat
  md_fetchTime :: string

record fetch_result =
  records :: "ndrecord list"
  metadata :: metadata

datatype http_response = NetworkFailure | Response nat string

datatype event = Request string | Sleep nat

text \<open>
  Everything a call reads from outside the program: the network's answer to the n-th
  attempt at a URL, \<open>JSON.parse\<close> on one line (\<open>None\<close> when it throws or gives \<open>null\<close>),
  the clock readings and the random tokens. The clock is read once for the cache key
  (\<open>now_key\<close>) and, in the cleaning loop, once for every key the loop visits:
  \<open>now_prune w i\<close> is the reading at the key in place \<open>i\<close>, counted from 0.
\<close>

record world =
  respond :: "string \<Rightarrow> nat \<Rightarrow> http_response"
  json_parse :: "string \<Rightarrow> ndrecord option"
  now_key :: nat
  now_prune :: "nat \<Rightarrow> nat"
  nonce_t :: string
  nonce_v :: string
  nonce_cb :: string
  nonce_nocache :: string
  nonce_rand :: string
  clock_iso :: "string \<Rightarrow> string"

record options =
  opt_maxRetries :: "nat option"
  opt_consistencyCheck :: "bool option"
  opt_useCache :: "bool option"

record fetcher =
  baseUrl :: string
  cache :: "(string \<times> fetch_result) list"

definition cacheTimeout :: nat where
  "cacheTimeout = 30000"

definition newFetcher :: "string \<Rightarrow> fetcher" where
  "newFetcher bucketName =
     \<lparr> baseUrl = ''https://storage.googleapis.com/'' @ bucketName, cache = [] \<rparr>"

subsection \<open>Strings\<close>

definition digit_char :: "nat \<Rightarrow> char" where
  "digit_char d = char_of (48 + d)"

text \<open>The decimal rendering of a number inside a template string.\<close>

function show_nat :: "nat \<Rightarrow> string" where
  "show_nat n = (if n < 10 then [digit_char n] else show_nat (n div 10) @ [digit_char (n mod 10)])"
  by pat_completeness auto
termination
  by (relation "measure id") auto

text \<open>
  \<open>String.prototype.trim\<close> on ASCII text: the white space it strips is the space, the tab,
  the line feed, the vertical tab, the form feed and the carriage return.
\<close>

definition isSpace :: "char \<Rightarrow> bool" where
  "isSpace c \<longleftrightarrow> c \<in> {CHR '' '', CHR 0x09, CHR 0x0A, CHR 0x0B, CHR 0x0C, CHR 0x0D}"

definition trim :: "string \<Rightarrow> string" where
  "trim s = rev (dropWhile isSpace (rev (dropWhile isSpace s)))"

text \<open>\<open>String.prototype.split\<close> on a one-character separator.\<close>

fun splitOn :: "char \<Rightarrow> string \<Rightarrow> string list" where
  "splitOn c [] = [[]]"
| "splitOn c (x # xs) =
     (if x = c then [] # splitOn c xs
      else (case splitOn c xs of [] \<Rightarrow> [[x]] | l # ls \<Rightarrow> (x # l) # ls))"

text \<open>\<open>!v\<close> for a timestamp: \<open>null\<close>, \<open>undefined\<close> and the empty string are falsy.\<close>

definition falsy :: "string option \<Rightarrow> bool" where
  "falsy v = (case v of None \<Rightarrow> True | Some s \<Rightarrow> s = [])"

text \<open>\<open>a > b\<close> on timestamps: false as soon as one side is \<open>undefined\<close>.\<close>

definition ts_gt :: "string option \<Rightarrow> string option \<Rightarrow> bool" where
  "ts_gt a b = (case a of None \<Rightarrow> False | Some x \<Rightarrow> (case b of None \<Rightarrow> False | Some y \<Rightarrow> x > y))"

subsection \<open>getCacheBustingUrl and fetchWithCacheBusting\<close>

definition getCacheBustingUrl :: "world \<Rightarrow> fetcher \<Rightarrow> string \<Rightarrow> string" where
  "getCacheBustingUrl w f path =
     baseUrl f @ ''/'' @ path @ ''?t='' @ nonce_t w @ ''&v='' @ nonce_v w @ ''&cb='' @ nonce_cb w"

definition response_ok :: "nat \<Rightarrow> bool" where
  "response_ok status \<longleftrightarrow> 200 \<le> status \<and> status \<le> 299"

definition backoff :: "nat \<Rightarrow> nat" where
  "backoff attempt = min (1000 * 2 ^ (attempt - 1)) 5000"

text \<open>
  One pass through the \<open>try\<close> of the retry loop: the body of a response that is \<open>ok\<close>, or
  the error thrown, by \<open>fetch\<close> itself or for a status outside 200--299. The body of a
  response that arrived is taken to be readable: a rejection of \<open>response.text()\<close> is not
  modelled.
\<close>

definition attemptOutcome :: "(string \<Rightarrow> nat \<Rightarrow> http_response) \<Rightarrow> string \<Rightarrow> nat \<Rightarrow> error + string" where
  "attemptOutcome net url attempt =
     (case net url attempt of
        NetworkFailure \<Rightarrow> Inl NetworkError
      | Response status body \<Rightarrow> if response_ok status then Inr body else Inl (HttpError status))"

text \<open>
  The retry loop, entered at \<open>attempt\<close>. It returns the body of the first successful
  response, raises the last error once \<open>attempt = maxRetries\<close>, and returns \<open>undefined\<close>
  (\<open>Inr None\<close>) when the loop condition fails. With the outcome comes the trace of the
  call: every request sent and every sleep between two attempts, in order.
\<close>

function fetchAttempts ::
  "(string \<Rightarrow> nat \<Rightarrow> http_response) \<Rightarrow> string \<Rightarrow> nat \<Rightarrow> nat
     \<Rightarrow> (error + string option) \<times> event list" where
  "fetchAttempts net url maxRetries attempt =
     (if attempt \<le> maxRetries then
        (case attemptOutcome net url attempt of
           Inr body \<Rightarrow> (Inr (Some body), [Request url])
         | Inl e \<Rightarrow>
             if attempt = maxRetries then (Inl e, [Request url])
             else (case fetchAttempts net url maxRetries (attempt + 1) of
                     (result, trace) \<Rightarrow>
                       (result, [Request url, Sleep (backoff attempt)] @ trace)))
      else (Inr None, []))"
  by pat_completeness auto
termination
  by (relation "measure (\<lambda>(net, url, maxRetries, attempt). maxRetries + 1 - attempt)") auto

definition fetchWithCacheBusting ::
  "world \<Rightarrow> string \<Rightarrow> nat \<Rightarrow> (error + string option) \<times> event list" where
  "fetchWithCacheBusting w url maxRetries = fetchAttempts (respond w) url maxRetries 1"

subsection \<open>fetchCryptoData\<close>

text \<open>
  The body of the \<open>try\<close> for one URL, after the response has arrived: the records it
  yields, or \<open>None\<close> for each \<open>continue\<close>.
\<close>

definition parseBody :: "world \<Rightarrow> string \<Rightarrow> ndrecord list option" where
  "parseBody w text =
     (if trim text = [] then None
      else
        let lines = filter (\<lambda>line. trim line \<noteq> []) (splitOn (CHR 0x0A) (trim text))
        in if length lines = 0 then None
           else
             let recs = List.map_filter (json_parse w) lines
             in if length recs = 0 then None else Some recs)"

text \<open>
  What one URL yields: its records when it is a candidate, and its trace. An error
  thrown by \<open>fetchWithCacheBusting\<close> is caught, and so is the TypeError of calling
  \<open>text()\<close> on an \<open>undefined\<close> response.
\<close>

definition fetchCandidate :: "world \<Rightarrow> string \<Rightarrow> ndrecord list option \<times> event list" where
  "fetchCandidate w url =
     (case fetchWithCacheBusting w url 2 of
        (Inl e, trace) \<Rightarrow> (None, trace)
      | (Inr None, trace) \<Rightarrow> (None, trace)
      | (Inr (Some text), trace) \<Rightarrow> (parseBody w text, trace))"

text \<open>
  The loop over the URLs, with its two variables \<open>bestResult\<close> and \<open>latestTimestamp\<close>.
\<close>

fun urlLoop ::
  "world \<Rightarrow> string list \<Rightarrow> fetch_result option \<Rightarrow> string option
     \<Rightarrow> fetch_result option \<times> string option \<times> event list" where
  "urlLoop w [] bestResult latestTimestamp = (bestResult, latestTimestamp, [])"
| "urlLoop w (url # rest) bestResult latestTimestamp =
     (case fetchCandidate w url of
        (None, trace1) \<Rightarrow>
          (case urlLoop w rest bestResult latestTimestamp of
             (best, latest, trace2) \<Rightarrow> (best, latest, trace1 @ trace2))
      | (Some recs, trace1) \<Rightarrow>
          (let lastRecord = last recs;
               timestamp = r_t lastRecord;
               better = (falsy latestTimestamp \<or> ts_gt timestamp latestTimestamp);
               bestResult1 =
                 (if better
                  then Some \<lparr> records = recs,
                               metadata = \<lparr> md_url = url, md_timestamp = timestamp,
                                            md_recordCount = length recs,
                                            md_fetchTime = clock_iso w url \<rparr> \<rparr>
                  else bestResult);
               latestTimestamp1 = (if better then timestamp else latestTimestamp)
           in case urlLoop w rest bestResult1 latestTimestamp1 of
                (best, latest, trace2) \<Rightarrow> (best, latest, trace1 @ trace2)))"

definition pathOf :: "string \<Rightarrow> string \<Rightarrow> string \<Rightarrow> string \<Rightarrow> string" where
  "pathOf exchange asset timeframe date =
     exchange @ ''/'' @ asset @ ''/'' @ timeframe @ ''/'' @ date @ ''.jsonl''"

text \<open>
  \<open>Math.floor(Date.now() / this.cacheTimeout)\<close>: the clock is a whole number of
  milliseconds, and for a clock reading the floor of the double quotient is the integer
  quotient.
\<close>

definition bucketOf :: "nat \<Rightarrow> nat" where
  "bucketOf now = now div cacheTimeout"

definition cacheKeyOf :: "string \<Rightarrow> nat \<Rightarrow> string" where
  "cacheKeyOf path now = path @ ''-'' @ show_nat (bucketOf now)"

definition candidateUrls :: "world \<Rightarrow> fetcher \<Rightarrow> string \<Rightarrow> string list" where
  "candidateUrls w f path =
     [ getCacheBustingUrl w f path,
       baseUrl f @ ''/'' @ path @ ''?nocache='' @ nonce_nocache w,
       baseUrl f @ ''/'' @ path @ ''?_='' @ nonce_rand w ]"

text \<open>\<open>Map.prototype.set\<close>: an existing key keeps its place.\<close>

fun cacheSet :: "string \<Rightarrow> fetch_result \<Rightarrow> (string \<times> fetch_result) list \<Rightarrow> (string \<times> fetch_result) list" where
  "cacheSet k v [] = [(k, v)]"
| "cacheSet k v ((k', v') # rest) = (if k' = k then (k, v) # rest else (k', v') # cacheSet k v rest)"

text \<open>
  The cleaning loop over the entries of the map, in their order: \<open>Date.now()\<close> is read
  anew for every key (\<open>clock i\<close> for the key in place \<open>i\<close>), and a key that does not end
  with the bucket of that reading is deleted.
\<close>

fun pruneLoop ::
  "(nat \<Rightarrow> nat) \<Rightarrow> nat \<Rightarrow> (string \<times> fetch_result) list \<Rightarrow> (string \<times> fetch_result) list" where
  "pruneLoop clock i [] = []"
| "pruneLoop clock i ((key, v) # rest) =
     (if suffix (''-'' @ show_nat (bucketOf (clock i))) key
      then (key, v) # pruneLoop clock (Suc i) rest
      else pruneLoop clock (Suc i) rest)"

definition pruneCache ::
  "(nat \<Rightarrow> nat) \<Rightarrow> (string \<times> fetch_result) list \<Rightarrow> (string \<times> fetch_result) list" where
  "pruneCache clock c = pruneLoop clock 0 c"

text \<open>
  The method returns its outcome, the fetcher with its cache as the call leaves it, and
  the trace of the requests and sleeps it made (empty when the cache answers). The
  options are destructured with their defaults as in the source, where \<open>maxRetries\<close> is
  bound and not used again. The consistency check only writes warnings to the console,
  so it leaves no trace here.
\<close>

definition fetchCryptoData ::
  "world \<Rightarrow> fetcher \<Rightarrow> string \<Rightarrow> string \<Rightarrow> string \<Rightarrow> string \<Rightarrow> options
     \<Rightarrow> (error + fetch_result) \<times> fetcher \<times> event list" where
  "fetchCryptoData w f exchange asset timeframe date opts =
     (let maxRetries = (case opt_maxRetries opts of None \<Rightarrow> 3 | Some n \<Rightarrow> n);
          consistencyCheck = (case opt_consistencyCheck opts of None \<Rightarrow> True | Some b \<Rightarrow> b);
          useCache = (case opt_useCache opts of None \<Rightarrow> True | Some b \<Rightarrow> b);
          path = pathOf exchange asset timeframe date;
          cacheKey = cacheKeyOf path (now_key w);
          cached = (if useCache then map_of (cache f) cacheKey else None)
      in case cached of
           Some hit \<Rightarrow> (Inr hit, f, [])
         | None \<Rightarrow>
             (case urlLoop w (candidateUrls w f path) None None of
                (None, latestTimestamp, trace) \<Rightarrow> (Inl FetchExhausted, f, trace)
              | (Some bestResult, latestTimestamp, trace) \<Rightarrow>
                  if useCache
                  then (Inr bestResult,
                        f\<lparr> cache := pruneCache (now_prune w) (cacheSet cacheKey bestResult (cache f)) \<rparr>,
                        trace)
                  else (Inr bestResult, f, trace)))"

subsection \<open>getLatestPrices\<close>

record price_summary =
  ps_price :: "real option"
  ps_timestamp :: "string option"
  ps_spread :: "real option"
  ps_volume :: "real option"
  ps_recordCount :: nat
  ps_fetchTime :: string

text \<open>\<open>a + b\<close> on possibly undefined numbers: \<open>NaN\<close>, here \<open>None\<close>, unless both are there.\<close>

definition js_add :: "real option \<Rightarrow> real option \<Rightarrow> real option" where
  "js_add a b =
     (case a of None \<Rightarrow> None | Some x \<Rightarrow> (case b of None \<Rightarrow> None | Some y \<Rightarrow> Some (dadd x y)))"

text \<open>
  The rest of the \<open>try\<close> after the fetch: reading a field of the last record raises a
  TypeError when there is no record.
\<close>

definition summaryOf :: "fetch_result \<Rightarrow> error + price_summary" where
  "summaryOf d =
     (if records d = [] then Inl TypeError
      else
        let lastRecord = last (records d)
        in Inr \<lparr> ps_price = r_mid lastRecord, ps_timestamp = r_t lastRecord,
                 ps_spread = r_spread_L5_pct lastRecord,
                 ps_volume = js_add (r_vol_L50_bids lastRecord) (r_vol_L50_asks lastRecord),
                 ps_recordCount = length (records d),
                 ps_fetchTime = md_fetchTime (metadata d) \<rparr>)"

text \<open>
  The \<open>try\<close>/\<open>catch\<close> for one pair: the entry written to \<open>results[exchange][asset]\<close>
  (\<open>None\<close> is \<open>null\<close>), the fetcher and the trace after it.
\<close>

definition priceEntry ::
  "world \<Rightarrow> fetcher \<Rightarrow> string \<Rightarrow> string \<Rightarrow> string \<Rightarrow> options
     \<Rightarrow> price_summary option \<times> fetcher \<times> event list" where
  "priceEntry w f exchange asset date opts =
     (case fetchCryptoData w f exchange asset ''1min'' date opts of
        (Inl e, f1, trace) \<Rightarrow> (None, f1, trace)
      | (Inr d, f1, trace) \<Rightarrow>
          (case summaryOf d of
             Inl e \<Rightarrow> (None, f1, trace)
           | Inr s \<Rightarrow> (Some s, f1, trace)))"

text \<open>The loop over the assets of one exchange; each call has a world of its own.\<close>

fun assetLoop ::
  "(string \<Rightarrow> string \<Rightarrow> world) \<Rightarrow> string \<Rightarrow> options \<Rightarrow> string \<Rightarrow> string list
     \<Rightarrow> fetcher \<Rightarrow> (string \<times> price_summary option) list
     \<Rightarrow> (string \<times> price_summary option) list \<times> fetcher \<times> event list" where
  "assetLoop ws date opts exchange [] f row = (row, f, [])"
| "assetLoop ws date opts exchange (asset # rest) f row =
     (case priceEntry (ws exchange asset) f exchange asset date opts of
        (entry, f1, trace1) \<Rightarrow>
          (case assetLoop ws date opts exchange rest f1 (row @ [(asset, entry)]) of
             (row2, f2, trace2) \<Rightarrow> (row2, f2, trace1 @ trace2)))"

fun exchangeLoop ::
  "(string \<Rightarrow> string \<Rightarrow> world) \<Rightarrow> string \<Rightarrow> options \<Rightarrow> string list \<Rightarrow> string list
     \<Rightarrow> fetcher \<Rightarrow> (string \<times> (string \<times> price_summary option) list) list
     \<Rightarrow> (string \<times> (string \<times> price_summary option) list) list \<times> fetcher \<times> event list" where
  "exchangeLoop ws date opts [] assets f results = (results, f, [])"
| "exchangeLoop ws date opts (exchange # rest) assets f results =
     (case assetLoop ws date opts exchange assets f [] of
        (row, f1, trace1) \<Rightarrow>
          (case exchangeLoop ws date opts rest assets f1 (results @ [(exchange, row)]) of
             (results2, f2, trace2) \<Rightarrow> (results2, f2, trace1 @ trace2)))"

text \<open>
  \<open>today\<close> is the date the clock gives, used when the caller passes no date (or a falsy
  one).
\<close>

definition getLatestPrices ::
  "(string \<Rightarrow> string \<Rightarrow> world) \<Rightarrow> string \<Rightarrow> fetcher \<Rightarrow> string option \<Rightarrow> options
     \<Rightarrow> (string \<times> (string \<times> price_summary option) list) list \<times> fetcher \<times> event list" where
  "getLatestPrices ws today f date opts =
     (let date1 = (case date of None \<Rightarrow> today | Some d \<Rightarrow> if d = [] then today else d);
          exchanges = [''coinbase'', ''kraken''];
          assets = [''BTC'', ''ETH'', ''ADA'', ''XRP'']
      in exchangeLoop ws date1 opts exchanges assets f [])"

section \<open>Example inputs\<close>

definition exampleSignal :: "real \<Rightarrow> real \<Rightarrow> signal" where
  "exampleSignal s c =
     \<lparr> sg_exchange = ''coinbase'', sg_asset = ''BTC'', sg_direction = Some ''bullish'',
       sg_strength = Some s, sg_confidence = Some c, sg_data_type = None \<rparr>"

definition exampleOpportunity :: "real \<Rightarrow> opportunity" where
  "exampleOpportunity p =
     \<lparr> op_asset = ''ETH'', op_high_exchange = ''kraken'', op_low_exchange = ''coinbase'',
       op_high_price = Some 4310.5, op_low_price = Some 4304, op_price_difference_pct = Some p \<rparr>"

definition exampleDoc ::
  "signal list \<Rightarrow> opportunity list \<Rightarrow> (string \<times> real) list \<Rightarrow> insights" where
  "exampleDoc sigs opps scores =
     \<lparr> current_signals = Some sigs, arbitrage_opportunities = Some opps,
       exchange_health = Some (map (\<lambda>(n, s). (n, Some \<lparr> health_score = Some s \<rparr>)) scores),
       overview = None \<rparr>"

text \<open>The market condition of the health scores 95 and 60, with no market overview.\<close>

definition exampleMarket :: market_condition where
  "exampleMarket =
     \<lparr> overallHealth = 77.5, healthStatus = ''degraded'', totalVolume = 0, avgSpread = 0,
       volatility = 0,
       recommendation = ''TIGHT_SPREADS: Good liquidity, favorable for trading'' \<rparr>"

definition arbitrageDoc :: insights where
  "arbitrageDoc =
     exampleDoc [] [exampleOpportunity 0.3, exampleOpportunity 0.2, exampleOpportunity 1]
       [(''a'', 95), (''b'', 60)]"

definition arbitrageRun :: recommendations where
  "arbitrageRun =
     \<lparr> marketCondition = exampleMarket,
       tradingSignals = [],
       arbitrageOpportunities = [arbitrageActionOf (exampleOpportunity 0.3),
                                 arbitrageActionOf (exampleOpportunity 1)],
       actionItems = [ArbitrageItem ''ETH'' (Some (dbl 0.8)),
                      MarketItem ''TIGHT_SPREADS: Good liquidity, favorable for trading''] \<rparr>"

definition mixedDoc :: insights where
  "mixedDoc =
     exampleDoc [exampleSignal 0.85 0.9, exampleSignal 0.75 0.9, exampleSignal 0.95 0.9]
       [exampleOpportunity 1, exampleOpportunity 0.3, exampleOpportunity 2]
       [(''a'', 95), (''b'', 60)]"

definition mixedRun :: recommendations where
  "mixedRun =
     \<lparr> marketCondition = exampleMarket,
       tradingSignals = [decisionOf (exampleSignal 0.85 0.9), decisionOf (exampleSignal 0.75 0.9),
                         decisionOf (exampleSignal 0.95 0.9)],
       arbitrageOpportunities = [arbitrageActionOf (exampleOpportunity 1),
                                 arbitrageActionOf (exampleOpportunity 0.3),
                                 arbitrageActionOf (exampleOpportunity 2)],
       actionItems = [ArbitrageItem ''ETH'' (Some (dbl 0.8)), ArbitrageItem ''ETH'' (Some (dbl 1.8)),
                      SignalItem ''BULLISH'' ''BTC'' ''coinbase'' (Some 0.85),
                      SignalItem ''BULLISH'' ''BTC'' ''coinbase'' (Some 0.95),
                      MarketItem ''TIGHT_SPREADS: Good liquidity, favorable for trading''] \<rparr>"

text \<open>A world for the fetcher: three candidate URLs answer with different last timestamps.\<close>

definition exampleRecord :: "string \<Rightarrow> real \<Rightarrow> ndrecord" where
  "exampleRecord ts price =
     \<lparr> r_t = Some ts, r_mid = Some price, r_spread_L5_pct = Some 0.005365,
       r_vol_L50_bids = Some 7.259, r_vol_L50_asks = Some 12.559 \<rparr>"

definition exampleParse :: "string \<Rightarrow> ndrecord option" where
  "exampleParse line =
     (if line = ''r44'' then Some (exampleRecord ''2025-09-09T17:44:37Z'' 111088.5)
      else if line = ''r45'' then Some (exampleRecord ''2025-09-09T17:45:37Z'' 111090)
      else if line = ''r46'' then Some (exampleRecord ''2025-09-09T17:46:37Z'' 111095.25)
      else None)"

definition exampleRespond :: "string \<Rightarrow> nat \<Rightarrow> http_response" where
  "exampleRespond url attempt =
     (if last url = CHR ''1''
      then (if attempt = 1 then Response 503 [] else Response 200 ''r44'')
      else if last url = CHR ''2''
      then Response 200 (''r44'' @ [CHR 0x0A] @ ''junk'' @ [CHR 0x0A] @ ''r46'' @ [CHR 0x0A])
      else Response 200 ''r45'')"

definition exampleWorld :: "nat \<Rightarrow> nat \<Rightarrow> world" where
  "exampleWorld t0 t1 =
     \<lparr> respond = exampleRespond, json_parse = exampleParse, now_key = t0,
       now_prune = (\<lambda>i. t1),
       nonce_t = ''1757439877000'', nonce_v = ''k3x9'', nonce_cb = ''1757439877001'',
       nonce_nocache = ''1757439877002'', nonce_rand = ''0.4913'',
       clock_iso = (\<lambda>url. ''2025-09-09T17:44:38.000Z'') \<rparr>"


definition failingWorld :: world where
  "failingWorld = (exampleWorld 1757439877000 1757439879000)\<lparr> respond := (\<lambda>url attempt. Response 500 []) \<rparr>"

definition defaultOptions :: options where
  "defaultOptions = \<lparr> opt_maxRetries = None, opt_consistencyCheck = None, opt_useCache = None \<rparr>"

definition exampleUrl :: "string \<Rightarrow> string" where
  "exampleUrl query =
     ''https://storage.googleapis.com/bananazone/coinbase/BTC/1min/2025-09-09.jsonl?'' @ query"

definition exampleResult :: fetch_result where
  "exampleResult =
     \<lparr> records = [exampleRecord ''2025-09-09T17:44:37Z'' 111088.5,
                  exampleRecord ''2025-09-09T17:46:37Z'' 111095.25],
       metadata = \<lparr> md_url = exampleUrl ''nocache=1757439877002'',
                    md_timestamp = Some ''2025-09-09T17:46:37Z'',
                    md_recordCount = 2, md_fetchTime = ''2025-09-09T17:44:38.000Z'' \<rparr> \<rparr>"

definition exampleTrace :: "event list" where
  "exampleTrace =
     [Request (exampleUrl ''t=1757439877000&v=k3x9&cb=1757439877001''), Sleep 1000,
      Request (exampleUrl ''t=1757439877000&v=k3x9&cb=1757439877001''),
      Request (exampleUrl ''nocache=1757439877002''),
      Request (exampleUrl ''_=0.4913'')]"

text \<open>
  Worlds for \<open>getLatestPrices\<close>: the example world for coinbase and BTC, failure for
  every other pair; and the prices they give. The volume is the double sum of 7.259 and
  12.559, which JavaScript prints as 19.817999999999998.
\<close>

definition exampleWorlds :: "string \<Rightarrow> string \<Rightarrow> world" where
  "exampleWorlds exchange asset =
     (if exchange = ''coinbase'' \<and> asset = ''BTC'' then exampleWorld 1757439877000 1757439879000
      else failingWorld)"

definition examplePrices :: "(string \<times> (string \<times> price_summary option) list) list" where
  "examplePrices =
     [(''coinbase'',
       [(''BTC'', Some \<lparr> ps_price = Some 111095.25, ps_timestamp = Some ''2025-09-09T17:46:37Z'',
                          ps_spread = Some 0.005365,
                          ps_volume = Some (5578271088451780 / 2 ^ 48),
                          ps_recordCount = 2, ps_fetchTime = ''2025-09-09T17:44:38.000Z'' \<rparr>),
        (''ETH'', None), (''ADA'', None), (''XRP'', None)]),
      (''kraken'', [(''BTC'', None), (''ETH'', None), (''ADA'', None), (''XRP'', None)])]"

section \<open>Notions used in the proofs\<close>

text \<open>
  The invariant of the loop over the URLs, after the URLs in \<open>S\<close>: the best result is
  one of their candidates, and its timestamp bounds every declared one.
\<close>

definition sel_inv ::
  "world \<Rightarrow> string set \<Rightarrow> fetch_result option \<Rightarrow> string option \<Rightarrow> bool" where
  "sel_inv w S best latest \<longleftrightarrow>
     (case best of
        None \<Rightarrow> latest = None \<and> (\<forall>u \<in> S. fst (fetchCandidate w u) = None)
      | Some r \<Rightarrow>
          latest = md_timestamp (metadata r) \<and>
          md_timestamp (metadata r) = r_t (last (records r)) \<and>
          md_recordCount (metadata r) = length (records r) \<and>
          md_url (metadata r) \<in> S \<and>
          fst (fetchCandidate w (md_url (metadata r))) = Some (records r)) \<and>
     (\<forall>u \<in> S. \<forall>recs s. fst (fetchCandidate w u) = Some recs \<longrightarrow> r_t (last recs) = Some s \<longrightarrow>
        s \<noteq> [] \<longrightarrow> (\<exists>s'. latest = Some s' \<and> s \<le> s'))"

text \<open>Every cached result holds at least one record.\<close>

definition cacheOK :: "fetcher \<Rightarrow> bool" where
  "cacheOK f \<longleftrightarrow> (\<forall>(k, v) \<in> set (cache f). records v \<noteq> [])"

text \<open>
  The fetcher as the fetches for a list of pairs (exchange, asset) leave it, one after
  the other, each in its own world: the state in which \<open>getLatestPrices\<close> reaches the
  pair that follows them.
\<close>

definition fetcherAfter ::
  "(string \<Rightarrow> string \<Rightarrow> world) \<Rightarrow> string \<Rightarrow> options \<Rightarrow> fetcher \<Rightarrow> (string \<times> string) list
     \<Rightarrow> fetcher" where
  "fetcherAfter ws date opts f pairs =
     foldl (\<lambda>g (x, a). fst (snd (fetchCryptoData (ws x a) g x a ''1min'' date opts))) f pairs"

text \<open>The entries the \<open>try\<close> gives for a list of pairs, from a state of the fetcher on.\<close>

fun entriesFrom ::
  "(string \<Rightarrow> string \<Rightarrow> world) \<Rightarrow> string \<Rightarrow> options \<Rightarrow> (string \<times> string) list \<Rightarrow> fetcher
     \<Rightarrow> price_summary option list" where
  "entriesFrom ws date opts [] f = []"
| "entriesFrom ws date opts ((x, a) # rest) f =
     fst (priceEntry (ws x a) f x a date opts)
       # entriesFrom ws date opts rest (fst (snd (priceEntry (ws x a) f x a date opts)))"

section \<open>Properties of the arithmetic on doubles\<close>

text \<open>
  A real whose absolute value, scaled by \<open>2 ^ n\<close>, lies between \<open>2 ^ 52\<close> and \<open>2 ^ 53\<close> is
  rounded at that scale. The doubles of the literals and results used below follow.
\<close>

lemma dbl_scaled:
  assumes "2 ^ 52 \<le> \<bar>x\<bar> * 2 ^ n" and "\<bar>x\<bar> * 2 ^ n < 2 ^ 53"
  shows "dbl x = of_int (rte (x * 2 ^ n)) / 2 ^ n"
proof -
  have x: "x \<noteq> 0" using assms(1) by auto
  have n: "(2::real) powr real n = 2 ^ n" by (simp add: powr_realpow)
  have p: "(2::real) powr (52 - real n) = 2 ^ 52 / 2 ^ n" unfolding powr_diff n by simp
  have p1: "(2::real) powr (53 - real n) = 2 ^ 53 / 2 ^ n" unfolding powr_diff n by simp
  have lo: "2 powr real_of_int (52 - int n) \<le> \<bar>x\<bar>" using assms(1) by (simp add: p field_simps)
  have hi: "\<bar>x\<bar> < 2 powr real_of_int (52 - int n + 1)" using assms(2) by (simp add: p1 field_simps)
  have e: "\<lfloor>log 2 \<bar>x\<bar>\<rfloor> = 52 - int n" using x lo hi by (subst floor_log_eq_powr_iff) auto
  have u: "(2::real) powr (real_of_int (52 - int n) - 52) = 1 / 2 ^ n"
    by (simp add: powr_minus n field_simps)
  show ?thesis using x unfolding dbl_def e u Let_def by simp
qed

lemma dbl_0: "dbl 0 = 0" by (simp add: dbl_def)
lemma dbl_1: "dbl 1 = 1" by (subst dbl_scaled [where n = 52]) (simp_all add: rte_def Let_def)
lemma dbl_2: "dbl 2 = 2" by (subst dbl_scaled [where n = 51]) (simp_all add: rte_def Let_def)
lemma dbl_60: "dbl 60 = 60" by (subst dbl_scaled [where n = 47]) (simp_all add: rte_def Let_def)
lemma dbl_95: "dbl 95 = 95" by (subst dbl_scaled [where n = 46]) (simp_all add: rte_def Let_def)
lemma dbl_155: "dbl 155 = 155" by (subst dbl_scaled [where n = 45]) (simp_all add: rte_def Let_def)
lemma dbl_775: "dbl 77.5 = 77.5" by (subst dbl_scaled [where n = 46]) (simp_all add: rte_def Let_def)
lemma dbl_02: "dbl 0.2 = 7205759403792794 / 2 ^ 55"
  by (subst dbl_scaled [where n = 55]) (simp_all add: rte_def Let_def)
lemma dbl_03: "dbl 0.3 = 5404319552844595 / 2 ^ 54"
  by (subst dbl_scaled [where n = 54]) (simp_all add: rte_def Let_def)
lemma dbl_08: "dbl 0.8 = 7205759403792794 / 2 ^ 53"
  by (subst dbl_scaled [where n = 53]) (simp_all add: rte_def Let_def)
lemma dbl_18: "dbl 1.8 = 8106479329266893 / 2 ^ 52"
  by (subst dbl_scaled [where n = 52]) (simp_all add: rte_def Let_def)
lemma dbl_01: "dbl 0.1 = 7205759403792794 / 2 ^ 56"
  by (subst dbl_scaled [where n = 56]) (simp_all add: rte_def Let_def)
lemma dbl_7259: "dbl 7.259 = 8172907423770608 / 2 ^ 50"
  by (subst dbl_scaled [where n = 50]) (simp_all add: rte_def Let_def)
lemma dbl_12559: "dbl 12.559 = 7070088465018257 / 2 ^ 49"
  by (subst dbl_scaled [where n = 49]) (simp_all add: rte_def Let_def)

lemma dsub_03_02: "dsub 0.3 0.2 = 1801439850948198 / 2 ^ 54"
  unfolding dsub_def dbl_03 dbl_02
  by (subst dbl_scaled [where n = 56]) (simp_all add: rte_def Let_def)

lemma dsub_1_02: "dsub 1 0.2 = 7205759403792794 / 2 ^ 53"
  unfolding dsub_def dbl_1 dbl_02
  by (subst dbl_scaled [where n = 53]) (simp_all add: rte_def Let_def)

lemma dsub_2_02: "dsub 2 0.2 = 8106479329266893 / 2 ^ 52"
  unfolding dsub_def dbl_2 dbl_02
  by (subst dbl_scaled [where n = 52]) (simp_all add: rte_def Let_def)

lemma dadd_volumes: "dadd 7.259 12.559 = 5578271088451780 / 2 ^ 48"
  unfolding dadd_def dbl_7259 dbl_12559
  by (subst dbl_scaled [where n = 48]) (simp_all add: rte_def Let_def)

lemma average_95_60: "averageHealth [95, 60] = 77.5"
proof -
  have a: "dadd 0 95 = 95" unfolding dadd_def dbl_0 dbl_95 using dbl_95 by simp
  have b: "dadd 95 60 = 155" unfolding dadd_def dbl_60 dbl_95 using dbl_155 by simp
  have c: "ddiv 155 2 = 77.5" unfolding ddiv_def dbl_155 dbl_2 using dbl_775 by simp
  show ?thesis by (simp add: averageHealth_def a b c)
qed

lemma average_60: "averageHealth [60] = 60"
proof -
  have a: "dadd 0 60 = 60" unfolding dadd_def dbl_0 dbl_60 using dbl_60 by simp
  have c: "ddiv 60 1 = 60" unfolding ddiv_def dbl_60 dbl_1 using dbl_60 by simp
  show ?thesis by (simp add: averageHealth_def a c)
qed

lemma average_empty: "averageHealth [] = 0"
  by (simp add: averageHealth_def)

lemma dsub_02_02: "dsub 0.2 0.2 = 0"
  by (simp add: dsub_def dbl_def)

text \<open>The same values, with the literals as the simplifier writes them.\<close>

lemma double_values:
  "dsub (3 / 10) (1 / 5) = 1801439850948198 / 2 ^ 54"
  "dsub (1 / 5) (1 / 5) = 0"
  "dsub 1 (1 / 5) = 7205759403792794 / 2 ^ 53"
  "dsub 2 (1 / 5) = 8106479329266893 / 2 ^ 52"
  "dbl (4 / 5) = 7205759403792794 / 2 ^ 53"
  "dbl (9 / 5) = 8106479329266893 / 2 ^ 52"
  "dadd (7259 / 1000) (12559 / 1000) = 5578271088451780 / 2 ^ 48"
  using dsub_03_02 dsub_02_02 dsub_1_02 dsub_2_02 dbl_08 dbl_18 dadd_volumes by simp_all

section \<open>Properties of the trading bot\<close>

subsection \<open>Closed forms of the loops\<close>

lemma signalsLoop_eq:
  "signalsLoop xs acc =
     (if \<exists>s \<in> set xs. sg_direction s = None then Inl TypeError
      else Inr (acc @ map decisionOf xs))"
  by (induction xs arbitrary: acc) (auto simp: Let_def decisionOf_def split: option.splits)

lemma arbitrageLoop_eq:
  "arbitrageLoop xs acc =
     (if \<exists>opp \<in> set xs. op_low_price opp = None \<or> op_high_price opp = None then Inl TypeError
      else Inr (acc @ map arbitrageActionOf xs))"
  by (induction xs arbitrary: acc) (auto simp: Let_def arbitrageActionOf_def split: option.splits)

lemma pushSignals_eq:
  "pushSignals ds acc = Inr items \<longleftrightarrow>
     (\<exists>sigItems. map Some sigItems = map signalItemOf ds \<and> items = acc @ sigItems)"
proof (induction ds arbitrary: acc)
  case Nil
  then show ?case by auto
next
  case (Cons d ds)
  show ?case
  proof (cases "signalItemOf d")
    case None
    then show ?thesis by (auto simp: map_eq_Cons_conv)
  next
    case (Some it)
    then show ?thesis
      using Cons.IH [of "acc @ [it]"]
      by (auto simp: map_eq_Cons_conv Cons_eq_map_conv)
  qed
qed

lemma foldl_pushArbitrage:
  "foldl pushArbitrage acc xs = acc @ map (\<lambda>a. ArbitrageItem (ar_asset a) (netProfitPct a)) xs"
  by (induction xs arbitrary: acc) (auto simp: pushArbitrage_def)

lemma executeAnalysis_parts:
  assumes "executeAnalysis (Some ins) = Inr (Some r)"
  shows "analyzeSignals ins = Inr (tradingSignals r)"
    and "analyzeArbitrage ins = Inr (arbitrageOpportunities r)"
    and "analyzeMarketConditions ins = Inr (marketCondition r)"
    and "generateActionItems (tradingSignals r) (arbitrageOpportunities r) (marketCondition r)
           = Inr (actionItems r)"
  using assms
  by (auto simp: executeAnalysis_def Let_def split: sum.splits)

lemma generateActionItems_poor:
  "healthStatus market = ''poor'' \<Longrightarrow> generateActionItems signals arbitrage market = Inr [WaitItem]"
  by (simp add: generateActionItems_def)

lemma generateActionItems_unfold:
  assumes "healthStatus market \<noteq> ''poor''"
  shows "generateActionItems signals arbitrage market =
     (case pushSignals (filter (\<lambda>s. js_gt (dc_strength s) 0.8) signals)
             (map (\<lambda>a. ArbitrageItem (ar_asset a) (netProfitPct a))
                (filter (\<lambda>a. js_gt (netProfitPct a) 0.5) arbitrage)) of
        Inl e \<Rightarrow> Inl e
      | Inr acts \<Rightarrow> Inr (acts @ [MarketItem (recommendation market)]
                          @ (if acts = [] then [HoldItem] else [])))"
  using assms
  by (simp add: generateActionItems_def Let_def foldl_pushArbitrage split: sum.splits)

lemma generateActionItems_eq:
  assumes "healthStatus market \<noteq> ''poor''"
  shows "generateActionItems signals arbitrage market = Inr items \<longleftrightarrow>
     (\<exists>sigItems.
        map Some sigItems = map signalItemOf (filter (\<lambda>s. js_gt (dc_strength s) 0.8) signals) \<and>
        items = map (\<lambda>a. ArbitrageItem (ar_asset a) (netProfitPct a))
                  (filter (\<lambda>a. js_gt (netProfitPct a) 0.5) arbitrage)
                @ sigItems @ [MarketItem (recommendation market)]
                @ (if filter (\<lambda>a. js_gt (netProfitPct a) 0.5) arbitrage = [] \<and>
                      filter (\<lambda>s. js_gt (dc_strength s) 0.8) signals = []
                   then [HoldItem] else []))"
proof -
  define arbs where "arbs = filter (\<lambda>a. js_gt (netProfitPct a) 0.5) arbitrage"
  define strong where "strong = filter (\<lambda>s. js_gt (dc_strength s) 0.8) signals"
  define A where "A = map (\<lambda>a. ArbitrageItem (ar_asset a) (netProfitPct a)) arbs"
  define M where "M = MarketItem (recommendation market)"
  have unf: "generateActionItems signals arbitrage market =
     (case pushSignals strong A of
        Inl e \<Rightarrow> Inl e
      | Inr acts \<Rightarrow> Inr (acts @ [M] @ (if acts = [] then [HoldItem] else [])))"
    unfolding arbs_def strong_def A_def M_def by (rule generateActionItems_unfold [OF assms])
  have goal: "generateActionItems signals arbitrage market = Inr items \<longleftrightarrow>
     (\<exists>sigItems. map Some sigItems = map signalItemOf strong \<and>
        items = A @ sigItems @ [M] @ (if arbs = [] \<and> strong = [] then [HoldItem] else []))"
  proof (cases "pushSignals strong A")
    case (Inl e)
    then have "\<not> (\<exists>sigItems. map Some sigItems = map signalItemOf strong)"
      using pushSignals_eq [of strong A] by auto
    with Inl unf show ?thesis by simp
  next
    case (Inr acts)
    then obtain sigItems where s: "map Some sigItems = map signalItemOf strong" "acts = A @ sigItems"
      using pushSignals_eq [of strong A acts] by auto
    have uniq: "xs = sigItems" if "map Some xs = map signalItemOf strong" for xs
      using s(1) that by (metis inj_Some inj_map_eq_map)
    have len: "length sigItems = length strong"
      using s(1) by (metis length_map)
    have emp: "acts = [] \<longleftrightarrow> arbs = [] \<and> strong = []"
      using s(2) len by (auto simp: A_def)
    have run: "generateActionItems signals arbitrage market =
        Inr (A @ sigItems @ [M] @ (if arbs = [] \<and> strong = [] then [HoldItem] else []))"
      using unf Inr emp s(2) by simp
    show ?thesis
    proof
      assume "generateActionItems signals arbitrage market = Inr items"
      with run have "items = A @ sigItems @ [M] @ (if arbs = [] \<and> strong = [] then [HoldItem] else [])"
        by simp
      with s(1) show "\<exists>sigItems. map Some sigItems = map signalItemOf strong \<and>
        items = A @ sigItems @ [M] @ (if arbs = [] \<and> strong = [] then [HoldItem] else [])"
        by blast
    next
      assume "\<exists>sigItems. map Some sigItems = map signalItemOf strong \<and>
        items = A @ sigItems @ [M] @ (if arbs = [] \<and> strong = [] then [HoldItem] else [])"
      then obtain xs where xs: "map Some xs = map signalItemOf strong"
        "items = A @ xs @ [M] @ (if arbs = [] \<and> strong = [] then [HoldItem] else [])"
        by blast
      from uniq [OF xs(1)] xs(2) run
      show "generateActionItems signals arbitrage market = Inr items" by simp
    qed
  qed
  then show ?thesis
    unfolding arbs_def strong_def A_def M_def .
qed

lemma analyzeArbitrage_eq:
  "analyzeArbitrage ins = Inr acts \<Longrightarrow>
     acts = map arbitrageActionOf
              (filter profitable (case arbitrage_opportunities ins of None \<Rightarrow> [] | Some xs \<Rightarrow> xs))"
  by (auto simp: analyzeArbitrage_def Let_def arbitrageLoop_eq split: if_splits)

lemmas bot_defs =
  executeAnalysis_def analyzeSignals_def analyzeArbitrage_def analyzeMarketConditions_def
  generateActionItems_def getMarketRecommendation_def healthStatusOf_def
  strongSignal_def profitable_def decisionOf_def arbitrageActionOf_def pushArbitrage_def
  signalItemOf_def js_gt_def or_zero_def emptyOverview_def
  exampleDoc_def exampleSignal_def exampleOpportunity_def exampleMarket_def Let_def
  average_95_60 average_60 average_empty double_values

lemma toUpperCase_bullish: "toUpperCase ''bullish'' = ''BULLISH''"
  by code_simp

lemma arbitrageRun_eval: "executeAnalysis (Some arbitrageDoc) = Inr (Some arbitrageRun)"
  by (simp add: arbitrageDoc_def arbitrageRun_def bot_defs)

lemma mixedRun_eval: "executeAnalysis (Some mixedDoc) = Inr (Some mixedRun)"
  by (simp add: mixedDoc_def mixedRun_def bot_defs toUpperCase_bullish)

subsection \<open>The signal filter\<close>

text \<open>
  Claim C8. The signal filter keeps exactly the signals with strength above 0.7 and
  confidence above 0.6, in their order; the decisions returned are those of the kept
  signals. (The call raises when a kept signal has no direction to upper-case.)
\<close>

theorem analyzeSignals_keeps_exactly:
  assumes "signals = (case current_signals ins of None \<Rightarrow> [] | Some xs \<Rightarrow> xs)"
      and "kept = filter (\<lambda>s. (case sg_strength s of None \<Rightarrow> False | Some x \<Rightarrow> x > 0.7) \<and>
                              (case sg_confidence s of None \<Rightarrow> False | Some c \<Rightarrow> c > 0.6)) signals"
  shows "analyzeSignals ins =
           (if \<exists>s \<in> set kept. sg_direction s = None then Inl TypeError
            else Inr (map decisionOf kept))"
proof -
  have eq: "(\<lambda>s. (case sg_strength s of None \<Rightarrow> False | Some x \<Rightarrow> x > 0.7) \<and>
                 (case sg_confidence s of None \<Rightarrow> False | Some c \<Rightarrow> c > 0.6)) = strongSignal"
    by (auto simp: strongSignal_def js_gt_def fun_eq_iff split: option.splits)
  show ?thesis
    unfolding assms eq analyzeSignals_def Let_def signalsLoop_eq by auto
qed

text \<open>
  The example of claim C8: of the signals with (strength, confidence) = (0.8, 0.7) and
  (0.5, 0.9), only the first is kept.
\<close>

theorem analyzeSignals_keeps_exactly_witness:
  "analyzeSignals (exampleDoc [exampleSignal 0.8 0.7, exampleSignal 0.5 0.9] [] [])
     = Inr [decisionOf (exampleSignal 0.8 0.7)]"
proof -
  let ?D = "exampleDoc [exampleSignal 0.8 0.7, exampleSignal 0.5 0.9] [] []"
  have sigs: "[exampleSignal 0.8 0.7, exampleSignal 0.5 0.9]
                = (case current_signals ?D of None \<Rightarrow> [] | Some xs \<Rightarrow> xs)"
    by (simp add: exampleDoc_def)
  have kept: "[exampleSignal 0.8 0.7] =
      filter (\<lambda>s. (case sg_strength s of None \<Rightarrow> False | Some x \<Rightarrow> x > 0.7) \<and>
                   (case sg_confidence s of None \<Rightarrow> False | Some c \<Rightarrow> c > 0.6))
        [exampleSignal 0.8 0.7, exampleSignal 0.5 0.9]"
    by (simp add: exampleSignal_def)
  have dir: "\<not> (\<exists>s \<in> set [exampleSignal 0.8 0.7]. sg_direction s = None)"
    by (simp add: exampleSignal_def)
  show ?thesis
    using analyzeSignals_keeps_exactly [OF sigs kept] dir by simp
qed

subsection \<open>Arbitrage thresholds\<close>

text \<open>
  Claim C3 as stated fails: an opportunity with a price difference of 0.3 is among the
  arbitrage results, but its net profit is the double 0.3 - 0.2, which is
  1801439850948198 / 2^54 = 0.09999999999999998 and not 0.1, and the action items hold no
  arbitrage item for it (only the market line and the hold item).
\<close>

theorem arbitrage_03_counterexample:
  "map_sum id (map_option (\<lambda>r. (map netProfitPct (arbitrageOpportunities r), actionItems r)))
     (executeAnalysis (Some (exampleDoc [] [exampleOpportunity 0.3] [(''a'', 95), (''b'', 60)])))
   = Inr (Some ([Some (1801439850948198 / 2 ^ 54)],
                [MarketItem ''TIGHT_SPREADS: Good liquidity, favorable for trading'', HoldItem])) \<and>
   (1801439850948198 / 2 ^ 54 :: real) < 0.1"
  by (simp add: bot_defs)

text \<open>
  Claim C3, amended. The arbitrage results are the actions of the opportunities with a
  price difference above 0.25, in order. An opportunity with a difference of 0.3 is among
  them, with the net profit 1801439850948198 / 2^54 (the double 0.3 - 0.2, which is
  0.09999999999999998); none with a difference of 0.2 is. Every arbitrage item among
  the action items has a net profit above 0.5, so neither of the two has an action item.
\<close>

theorem arbitrage_results_and_items:
  assumes "executeAnalysis (Some ins) = Inr (Some r)"
      and "opps = (case arbitrage_opportunities ins of None \<Rightarrow> [] | Some xs \<Rightarrow> xs)"
  shows "arbitrageOpportunities r =
           map arbitrageActionOf
             (filter (\<lambda>opp. case op_price_difference_pct opp of None \<Rightarrow> False | Some p \<Rightarrow> p > 0.25) opps) \<and>
         (\<forall>opp \<in> set opps. op_price_difference_pct opp = Some 0.3 \<longrightarrow>
            arbitrageActionOf opp \<in> set (arbitrageOpportunities r) \<and>
            netProfitPct (arbitrageActionOf opp) = Some (1801439850948198 / 2 ^ 54)) \<and>
         (\<forall>a \<in> set (arbitrageOpportunities r). grossProfitPct a \<noteq> Some 0.2) \<and>
         (\<forall>asset n. ArbitrageItem asset n \<in> set (actionItems r) \<longrightarrow> (\<exists>p. n = Some p \<and> p > 0.5))"
proof -
  have P: "(\<lambda>opp. case op_price_difference_pct opp of None \<Rightarrow> False | Some p \<Rightarrow> p > 0.25) = profitable"
    by (auto simp: profitable_def js_gt_def fun_eq_iff split: option.splits)
  have kept: "arbitrageOpportunities r = map arbitrageActionOf (filter profitable opps)"
    using analyzeArbitrage_eq [OF executeAnalysis_parts(2) [OF assms(1)]] assms(2) by simp
  have net: "netProfitPct (arbitrageActionOf opp) = Some (1801439850948198 / 2 ^ 54)"
    if "op_price_difference_pct opp = Some 0.3" for opp
    using that by (simp add: arbitrageActionOf_def double_values)
  have c2: "\<forall>opp \<in> set opps. op_price_difference_pct opp = Some 0.3 \<longrightarrow>
            arbitrageActionOf opp \<in> set (arbitrageOpportunities r) \<and>
            netProfitPct (arbitrageActionOf opp) = Some (1801439850948198 / 2 ^ 54)"
    unfolding kept using net by (auto simp: profitable_def js_gt_def)
  have c3: "\<forall>a \<in> set (arbitrageOpportunities r). grossProfitPct a \<noteq> Some 0.2"
    unfolding kept by (auto simp: profitable_def js_gt_def arbitrageActionOf_def)
  have c4: "\<exists>p. n = Some p \<and> p > 0.5" if "ArbitrageItem asset n \<in> set (actionItems r)" for asset n
  proof (cases "healthStatus (marketCondition r) = ''poor''")
    case True
    from generateActionItems_poor [OF True] executeAnalysis_parts(4) [OF assms(1)]
    have "actionItems r = [WaitItem]" by simp
    with that show ?thesis by simp
  next
    case False
    from generateActionItems_eq [OF False] executeAnalysis_parts(4) [OF assms(1)]
    obtain sigItems where s:
      "map Some sigItems = map signalItemOf (filter (\<lambda>s. js_gt (dc_strength s) 0.8) (tradingSignals r))"
      "actionItems r = map (\<lambda>a. ArbitrageItem (ar_asset a) (netProfitPct a))
                  (filter (\<lambda>a. js_gt (netProfitPct a) 0.5) (arbitrageOpportunities r))
                @ sigItems @ [MarketItem (recommendation (marketCondition r))]
                @ (if filter (\<lambda>a. js_gt (netProfitPct a) 0.5) (arbitrageOpportunities r) = [] \<and>
                      filter (\<lambda>s. js_gt (dc_strength s) 0.8) (tradingSignals r) = []
                   then [HoldItem] else [])"
      by blast
    have notsig: "ArbitrageItem asset n \<notin> set sigItems"
    proof
      assume "ArbitrageItem asset n \<in> set sigItems"
      then have "Some (ArbitrageItem asset n) \<in> set (map Some sigItems)" by simp
      then have "Some (ArbitrageItem asset n) \<in> signalItemOf ` set (tradingSignals r)"
        unfolding s(1) by auto
      then show False by (auto simp: signalItemOf_def split: option.splits)
    qed
    from that have "ArbitrageItem asset n \<in> set (map (\<lambda>a. ArbitrageItem (ar_asset a) (netProfitPct a))
                  (filter (\<lambda>a. js_gt (netProfitPct a) 0.5) (arbitrageOpportunities r)))"
      unfolding s(2) using notsig by (auto split: if_splits)
    then show ?thesis by (auto simp: js_gt_def split: option.splits)
  qed
  show ?thesis
    unfolding P using kept c2 c3 c4 by blast
qed

text \<open>The amended claim C3 on a document with differences 0.3, 0.2 and 1.\<close>

theorem arbitrage_results_and_items_witness:
  "executeAnalysis (Some arbitrageDoc) = Inr (Some arbitrageRun) \<and>
   arbitrageOpportunities arbitrageRun =
     map arbitrageActionOf
       (filter (\<lambda>opp. case op_price_difference_pct opp of None \<Rightarrow> False | Some p \<Rightarrow> p > 0.25)
          [exampleOpportunity 0.3, exampleOpportunity 0.2, exampleOpportunity 1]) \<and>
   arbitrageActionOf (exampleOpportunity 0.3) \<in> set (arbitrageOpportunities arbitrageRun) \<and>
   netProfitPct (arbitrageActionOf (exampleOpportunity 0.3)) = Some (1801439850948198 / 2 ^ 54) \<and>
   Some 0.2 \<notin> grossProfitPct ` set (arbitrageOpportunities arbitrageRun) \<and>
   ArbitrageItem ''ETH'' (Some (1801439850948198 / 2 ^ 54)) \<notin> set (actionItems arbitrageRun) \<and>
   ArbitrageItem ''ETH'' (Some 0) \<notin> set (actionItems arbitrageRun)"
proof -
  have opps: "[exampleOpportunity 0.3, exampleOpportunity 0.2, exampleOpportunity 1]
                = (case arbitrage_opportunities arbitrageDoc of None \<Rightarrow> [] | Some xs \<Rightarrow> xs)"
    by (simp add: arbitrageDoc_def exampleDoc_def)
  have pct: "op_price_difference_pct (exampleOpportunity 0.3) = Some 0.3"
    by (simp add: exampleOpportunity_def)
  note inst = arbitrage_results_and_items [OF arbitrageRun_eval opps]
  have c1: "arbitrageOpportunities arbitrageRun =
     map arbitrageActionOf
       (filter (\<lambda>opp. case op_price_difference_pct opp of None \<Rightarrow> False | Some p \<Rightarrow> p > 0.25)
          [exampleOpportunity 0.3, exampleOpportunity 0.2, exampleOpportunity 1])"
    using inst by blast
  have c2: "arbitrageActionOf (exampleOpportunity 0.3) \<in> set (arbitrageOpportunities arbitrageRun) \<and>
            netProfitPct (arbitrageActionOf (exampleOpportunity 0.3)) = Some (1801439850948198 / 2 ^ 54)"
    using inst pct by simp
  have c3: "Some 0.2 \<notin> grossProfitPct ` set (arbitrageOpportunities arbitrageRun)"
    using inst by force
  have c4: "ArbitrageItem ''ETH'' (Some (1801439850948198 / 2 ^ 54)) \<notin> set (actionItems arbitrageRun)"
    using inst by fastforce
  have c5: "ArbitrageItem ''ETH'' (Some 0) \<notin> set (actionItems arbitrageRun)"
    using inst by fastforce
  from arbitrageRun_eval c1 c2 c3 c4 c5 show ?thesis by blast
qed

subsection \<open>The order of the action items\<close>

text \<open>
  Claim C5 as stated fails: two opportunities with net profits 0.8 and 1.8 (the doubles
  1 - 0.2 and 2 - 0.2), in this order in the document, give their action items in this
  same, ascending, order.
\<close>

theorem unsorted_items_counterexample:
  "map_sum id (map_option actionItems)
     (executeAnalysis (Some (exampleDoc [] [exampleOpportunity 1, exampleOpportunity 2]
                               [(''a'', 95), (''b'', 60)])))
   = Inr (Some [ArbitrageItem ''ETH'' (Some (dbl 0.8)), ArbitrageItem ''ETH'' (Some (dbl 1.8)),
                MarketItem ''TIGHT_SPREADS: Good liquidity, favorable for trading''])"
  by (simp add: bot_defs)

text \<open>
  Claim C5, amended. When the market health is not poor, the action items are: one item
  per arbitrage result with net profit above 0.5, in the order of the results; then one
  item per trading signal with strength above 0.8, in the order of the signals; then
  exactly one market line; then the hold item if and only if there is neither such an
  arbitrage result nor such a signal. Nothing is sorted.
\<close>

theorem actionItems_in_input_order:
  assumes "executeAnalysis (Some ins) = Inr (Some r)"
      and "healthStatus (marketCondition r) \<noteq> ''poor''"
      and "arbs = filter (\<lambda>a. case netProfitPct a of None \<Rightarrow> False | Some p \<Rightarrow> p > 0.5)
                    (arbitrageOpportunities r)"
      and "strong = filter (\<lambda>d. case dc_strength d of None \<Rightarrow> False | Some x \<Rightarrow> x > 0.8)
                      (tradingSignals r)"
  shows "\<exists>sigItems.
           map Some sigItems = map signalItemOf strong \<and>
           actionItems r =
             map (\<lambda>a. ArbitrageItem (ar_asset a) (netProfitPct a)) arbs
             @ sigItems
             @ [MarketItem (recommendation (marketCondition r))]
             @ (if arbs = [] \<and> strong = [] then [HoldItem] else [])"
proof -
  have A: "(\<lambda>a. case netProfitPct a of None \<Rightarrow> False | Some p \<Rightarrow> p > 0.5)
             = (\<lambda>a. js_gt (netProfitPct a) 0.5)"
    by (auto simp: js_gt_def fun_eq_iff split: option.splits)
  have S: "(\<lambda>d. case dc_strength d of None \<Rightarrow> False | Some x \<Rightarrow> x > 0.8)
             = (\<lambda>d. js_gt (dc_strength d) 0.8)"
    by (auto simp: js_gt_def fun_eq_iff split: option.splits)
  show ?thesis
    unfolding assms(3,4) A S
    using generateActionItems_eq [OF assms(2)] executeAnalysis_parts(4) [OF assms(1)]
    by blast
qed

text \<open>The amended claim C5 on a document with three signals and three opportunities.\<close>

theorem actionItems_in_input_order_witness:
  "executeAnalysis (Some mixedDoc) = Inr (Some mixedRun) \<and>
   healthStatus (marketCondition mixedRun) \<noteq> ''poor'' \<and>
   (\<exists>sigItems.
      map Some sigItems =
        map signalItemOf [decisionOf (exampleSignal 0.85 0.9), decisionOf (exampleSignal 0.95 0.9)] \<and>
      actionItems mixedRun =
        map (\<lambda>a. ArbitrageItem (ar_asset a) (netProfitPct a))
          [arbitrageActionOf (exampleOpportunity 1), arbitrageActionOf (exampleOpportunity 2)]
        @ sigItems
        @ [MarketItem (recommendation (marketCondition mixedRun))]
        @ (if [arbitrageActionOf (exampleOpportunity 1), arbitrageActionOf (exampleOpportunity 2)] = [] \<and>
              [decisionOf (exampleSignal 0.85 0.9), decisionOf (exampleSignal 0.95 0.9)] = []
           then [HoldItem] else []))"
proof -
  have h: "healthStatus (marketCondition mixedRun) \<noteq> ''poor''"
    by (simp add: mixedRun_def mixedDoc_def bot_defs)
  have arbs: "[arbitrageActionOf (exampleOpportunity 1), arbitrageActionOf (exampleOpportunity 2)]
      = filter (\<lambda>a. case netProfitPct a of None \<Rightarrow> False | Some p \<Rightarrow> p > 0.5)
          (arbitrageOpportunities mixedRun)"
    by (simp add: mixedRun_def arbitrageActionOf_def exampleOpportunity_def double_values)
  have strong: "[decisionOf (exampleSignal 0.85 0.9), decisionOf (exampleSignal 0.95 0.9)]
      = filter (\<lambda>d. case dc_strength d of None \<Rightarrow> False | Some x \<Rightarrow> x > 0.8)
          (tradingSignals mixedRun)"
    by (simp add: mixedRun_def decisionOf_def exampleSignal_def)
  from actionItems_in_input_order [OF mixedRun_eval h arbs strong] mixedRun_eval h
  show ?thesis by blast
qed

subsection \<open>Market health\<close>

text \<open>
  Claim C6. The scores 95 and 60 average to 77.5, classified degraded. At an average of
  exactly 60 the status is \<open>poor\<close>, although \<open>getMarketRecommendation\<close> treats only
  averages below 60 as poor data quality.
\<close>

theorem health_60_is_poor:
  "analyzeMarketConditions (exampleDoc [] [] [(''a'', 95), (''b'', 60)]) =
     Inr \<lparr> overallHealth = 77.5, healthStatus = ''degraded'', totalVolume = 0, avgSpread = 0,
           volatility = 0,
           recommendation = ''TIGHT_SPREADS: Good liquidity, favorable for trading'' \<rparr> \<and>
   analyzeMarketConditions (exampleDoc [] [] [(''kraken'', 60)]) =
     Inr \<lparr> overallHealth = 60, healthStatus = ''poor'', totalVolume = 0, avgSpread = 0,
           volatility = 0,
           recommendation = ''TIGHT_SPREADS: Good liquidity, favorable for trading'' \<rparr>"
  by (simp add: bot_defs)

subsection \<open>Empty documents\<close>

text \<open>
  Claim C7 as stated fails: for the document with every sub-collection missing the only
  action item is the caution item, not a hold item.
\<close>

theorem empty_document_counterexample:
  "map_sum id (map_option actionItems)
     (executeAnalysis (Some \<lparr> current_signals = None, arbitrage_opportunities = None,
                              exchange_health = None, overview = None \<rparr>))
   = Inr (Some [WaitItem])"
  by (simp add: bot_defs)

text \<open>
  Claim C7, amended. When the signals, the opportunities and the exchange health are each
  empty or missing, the analysis does not raise and returns empty signal and arbitrage
  lists; the average health is then 0, the status poor, and the only action item is the
  caution item: there is no hold item.
\<close>

theorem empty_collections_never_raise:
  assumes "current_signals ins = None \<or> current_signals ins = Some []"
      and "arbitrage_opportunities ins = None \<or> arbitrage_opportunities ins = Some []"
      and "exchange_health ins = None \<or> exchange_health ins = Some []"
  shows "\<exists>r. executeAnalysis (Some ins) = Inr (Some r) \<and>
             tradingSignals r = [] \<and> arbitrageOpportunities r = [] \<and>
             overallHealth (marketCondition r) = 0 \<and>
             healthStatus (marketCondition r) = ''poor'' \<and>
             actionItems r = [WaitItem]"
proof -
  have s: "analyzeSignals ins = Inr []"
    using assms(1) by (auto simp: analyzeSignals_def)
  have a: "analyzeArbitrage ins = Inr []"
    using assms(2) by (auto simp: analyzeArbitrage_def)
  obtain m where m: "analyzeMarketConditions ins = Inr m" "overallHealth m = 0"
    "healthStatus m = ''poor''"
    using assms(3)
    by (auto simp: analyzeMarketConditions_def averageHealth_def healthStatusOf_def Let_def)
  have g: "generateActionItems [] [] m = Inr [WaitItem]"
    using m(3) by (simp add: generateActionItems_def)
  show ?thesis
    using m by (simp add: executeAnalysis_def s a g Let_def)
qed

text \<open>
  The amended claim C7 on the document whose three sub-collections are empty, and on the
  one where they are missing.
\<close>

theorem empty_collections_never_raise_witness:
  "(\<exists>r. executeAnalysis (Some (exampleDoc [] [] [])) = Inr (Some r) \<and>
        tradingSignals r = [] \<and> arbitrageOpportunities r = [] \<and>
        overallHealth (marketCondition r) = 0 \<and>
        healthStatus (marketCondition r) = ''poor'' \<and>
        actionItems r = [WaitItem]) \<and>
   (\<exists>r. executeAnalysis (Some \<lparr> current_signals = None, arbitrage_opportunities = None,
                                 exchange_health = None, overview = None \<rparr>) = Inr (Some r) \<and>
        tradingSignals r = [] \<and> arbitrageOpportunities r = [] \<and>
        overallHealth (marketCondition r) = 0 \<and>
        healthStatus (marketCondition r) = ''poor'' \<and>
        actionItems r = [WaitItem])"
proof -
  have s: "current_signals (exampleDoc [] [] []) = None \<or> current_signals (exampleDoc [] [] []) = Some []"
    by (simp add: exampleDoc_def)
  have a: "arbitrage_opportunities (exampleDoc [] [] []) = None \<or>
           arbitrage_opportunities (exampleDoc [] [] []) = Some []"
    by (simp add: exampleDoc_def)
  have h: "exchange_health (exampleDoc [] [] []) = None \<or> exchange_health (exampleDoc [] [] []) = Some []"
    by (simp add: exampleDoc_def)
  from empty_collections_never_raise [OF s a h]
       empty_collections_never_raise
         [of "\<lparr> current_signals = None, arbitrage_opportunities = None,
                exchange_health = None, overview = None \<rparr>"]
  show ?thesis by simp
qed

section \<open>Properties of the fetcher\<close>

declare fetchAttempts.simps [simp del] show_nat.simps [simp del]

subsection \<open>The retry loop\<close>

lemma fetchAttempts_two:
  "fetchAttempts net url 2 (Suc 0) =
     (case attemptOutcome net url 1 of
        Inr body \<Rightarrow> (Inr (Some body), [Request url])
      | Inl e \<Rightarrow>
          (case attemptOutcome net url 2 of
             Inr body \<Rightarrow> (Inr (Some body), [Request url, Sleep 1000, Request url])
           | Inl e2 \<Rightarrow> (Inl e2, [Request url, Sleep 1000, Request url])))"
proof -
  have second: "fetchAttempts net url 2 2 =
     (case attemptOutcome net url 2 of
        Inr body \<Rightarrow> (Inr (Some body), [Request url])
      | Inl e \<Rightarrow> (Inl e, [Request url]))"
    by (subst fetchAttempts.simps) (simp add: attemptOutcome_def Let_def split: sum.splits)
  have "fetchAttempts net url 2 1 =
     (case attemptOutcome net url 1 of
        Inr body \<Rightarrow> (Inr (Some body), [Request url])
      | Inl e \<Rightarrow> (case fetchAttempts net url 2 (1 + 1) of
                    (result, trace) \<Rightarrow> (result, [Request url, Sleep (backoff 1)] @ trace)))"
    by (subst fetchAttempts.simps) (simp add: attemptOutcome_def Let_def split: sum.splits)
  also have "(1::nat) + 1 = 2" by simp
  finally show ?thesis
    by (simp add: second backoff_def split: sum.splits)
qed

lemma fetchCandidate_requests:
  "Request url \<in> set (snd (fetchCandidate w url))"
  by (simp add: fetchCandidate_def fetchWithCacheBusting_def fetchAttempts_two
      split: sum.splits option.splits prod.splits)

lemma fetchAttempts_all_fail:
  assumes "\<And>n. \<exists>e. attemptOutcome net url n = Inl e"
      and "1 \<le> attempt" "attempt \<le> maxRetries"
  shows "\<exists>e. fst (fetchAttempts net url maxRetries attempt) = Inl e \<and>
             count_list (snd (fetchAttempts net url maxRetries attempt)) (Request url)
               = maxRetries + 1 - attempt"
  using assms(2,3)
proof (induction "maxRetries - attempt" arbitrary: attempt)
  case 0
  then have eq: "attempt = maxRetries" by simp
  obtain e where e: "attemptOutcome net url maxRetries = Inl e" using assms(1) by blast
  show ?case
    unfolding eq
    by (subst (1 2) fetchAttempts.simps) (use e in \<open>simp add: attemptOutcome_def Let_def\<close>)
next
  case (Suc k)
  then have lt: "attempt < maxRetries" by simp
  obtain e where e: "attemptOutcome net url attempt = Inl e" using assms(1) by blast
  have IH: "\<exists>e. fst (fetchAttempts net url maxRetries (attempt + 1)) = Inl e \<and>
             count_list (snd (fetchAttempts net url maxRetries (attempt + 1))) (Request url)
               = maxRetries + 1 - (attempt + 1)"
    using Suc by (intro Suc.hyps(1)) auto
  have unf: "fetchAttempts net url maxRetries attempt =
      (case fetchAttempts net url maxRetries (attempt + 1) of
         (result, trace) \<Rightarrow> (result, [Request url, Sleep (backoff attempt)] @ trace))"
    by (subst fetchAttempts.simps) (use e lt in \<open>simp add: attemptOutcome_def Let_def\<close>)
  show ?case
    unfolding unf using IH lt by (auto split: prod.splits)
qed

lemma fetchCandidate_all_fail:
  assumes "\<And>n. \<exists>e. attemptOutcome (respond w) url n = Inl e"
  shows "fetchCandidate w url = (None, [Request url, Sleep 1000, Request url])"
proof -
  obtain e1 e2 where "attemptOutcome (respond w) url 1 = Inl e1" "attemptOutcome (respond w) url 2 = Inl e2"
    using assms by blast
  then show ?thesis
    by (simp add: fetchCandidate_def fetchWithCacheBusting_def fetchAttempts_two)
qed

lemma urlLoop_all_fail:
  assumes "\<And>url n. \<exists>e. attemptOutcome (respond w) url n = Inl e"
  shows "urlLoop w urls best latest =
           (best, latest, concat (map (\<lambda>u. [Request u, Sleep 1000, Request u]) urls))"
  by (induction urls) (simp_all add: fetchCandidate_all_fail [OF assms])

subsection \<open>The choice among the candidates\<close>

lemma sel_inv_skip:
  assumes "sel_inv w S best latest" "fst (fetchCandidate w url) = None"
  shows "sel_inv w (insert url S) best latest"
  using assms by (auto simp: sel_inv_def split: option.splits)

lemma sel_inv_take:
  assumes inv: "sel_inv w S best latest"
      and cand: "fst (fetchCandidate w url) = Some recs"
      and better: "falsy latest \<or> ts_gt (r_t (last recs)) latest"
  shows "sel_inv w (insert url S)
           (Some \<lparr> records = recs,
                   metadata = \<lparr> md_url = url, md_timestamp = r_t (last recs),
                                md_recordCount = length recs, md_fetchTime = ft \<rparr> \<rparr>)
           (r_t (last recs))"
proof -
  have old: "\<exists>s'. r_t (last recs) = Some s' \<and> s \<le> s'"
    if "u \<in> S" "fst (fetchCandidate w u) = Some recs'" "r_t (last recs') = Some s" "s \<noteq> []"
    for u recs' s
  proof -
    from inv that obtain l where l: "latest = Some l" "s \<le> l"
      unfolding sel_inv_def by blast
    with that(4) have "l \<noteq> []" by auto
    with l(1) have "\<not> falsy latest" by (simp add: falsy_def)
    with better have "ts_gt (r_t (last recs)) latest" by simp
    with l show ?thesis by (auto simp: ts_gt_def split: option.splits)
  qed
  show ?thesis
    unfolding sel_inv_def using cand old by auto
qed

lemma sel_inv_keep:
  assumes inv: "sel_inv w S best latest"
      and cand: "fst (fetchCandidate w url) = Some recs"
      and worse: "\<not> (falsy latest \<or> ts_gt (r_t (last recs)) latest)"
  shows "sel_inv w (insert url S) best latest"
proof -
  from worse obtain l where l: "latest = Some l" "l \<noteq> []"
    by (auto simp: falsy_def split: option.splits)
  have new: "\<exists>s'. latest = Some s' \<and> s \<le> s'" if "r_t (last recs) = Some s" for s
    using worse l that by (auto simp: ts_gt_def)
  from inv l obtain r where r: "best = Some r"
    by (cases best) (auto simp: sel_inv_def)
  show ?thesis
    using inv new cand r unfolding sel_inv_def by auto
qed

lemma urlLoop_inv:
  assumes "urlLoop w urls best latest = (best', latest', tr)" "sel_inv w S best latest"
  shows "sel_inv w (S \<union> set urls) best' latest'"
  using assms
proof (induction urls arbitrary: best latest S tr)
  case Nil
  then show ?case by simp
next
  case (Cons url rest)
  obtain c tr1 where c: "fetchCandidate w url = (c, tr1)" by (cases "fetchCandidate w url")
  show ?case
  proof (cases c)
    case None
    with c Cons.prems(1) obtain tr2 where
      rec: "urlLoop w rest best latest = (best', latest', tr2)"
      by (auto split: prod.splits)
    have "sel_inv w (insert url S) best latest"
      using sel_inv_skip [OF Cons.prems(2)] c None by simp
    from Cons.IH [OF rec this] show ?thesis by simp
  next
    case (Some recs)
    show ?thesis
    proof (cases "falsy latest \<or> ts_gt (r_t (last recs)) latest")
      case True
      with c Some Cons.prems(1) obtain tr2 where
        rec: "urlLoop w rest
                (Some \<lparr> records = recs,
                        metadata = \<lparr> md_url = url, md_timestamp = r_t (last recs),
                                     md_recordCount = length recs,
                                     md_fetchTime = clock_iso w url \<rparr> \<rparr>)
                (r_t (last recs)) = (best', latest', tr2)"
        by (auto simp: Let_def split: prod.splits)
      have "sel_inv w (insert url S)
                (Some \<lparr> records = recs,
                        metadata = \<lparr> md_url = url, md_timestamp = r_t (last recs),
                                     md_recordCount = length recs,
                                     md_fetchTime = clock_iso w url \<rparr> \<rparr>)
                (r_t (last recs))"
        using sel_inv_take [OF Cons.prems(2) _ True] c Some by simp
      from Cons.IH [OF rec this] show ?thesis by simp
    next
      case False
      with c Some Cons.prems(1) obtain tr2 where
        rec: "urlLoop w rest best latest = (best', latest', tr2)"
        by (auto simp: Let_def split: prod.splits)
      have "sel_inv w (insert url S) best latest"
        using sel_inv_keep [OF Cons.prems(2) _ False] c Some by simp
      from Cons.IH [OF rec this] show ?thesis by simp
    qed
  qed
qed

lemma urlLoop_trace:
  "urlLoop w urls best latest = (best', latest', tr) \<Longrightarrow>
     tr = concat (map (\<lambda>u. snd (fetchCandidate w u)) urls)"
proof (induction urls arbitrary: best latest best' latest' tr)
  case Nil
  then show ?case by simp
next
  case (Cons url rest)
  obtain c tr1 where c: "fetchCandidate w url = (c, tr1)" by (cases "fetchCandidate w url")
  from Cons.prems c obtain b l tr2 where
    "urlLoop w rest b l = (best', latest', tr2)" "tr = tr1 @ tr2"
    by (cases c) (auto simp: Let_def split: prod.splits)
  with Cons.IH [of b l best' latest' tr2] c show ?case by simp
qed

lemma urlLoop_requests:
  assumes "urlLoop w urls best latest = (best', latest', tr)" "url \<in> set urls"
  shows "Request url \<in> set tr"
  using urlLoop_trace [OF assms(1)] assms(2) fetchCandidate_requests [of url w] by auto


lemma parseBody_nonempty: "parseBody w text = Some recs \<Longrightarrow> recs \<noteq> []"
  by (auto simp: parseBody_def Let_def split: if_splits)

lemma fetchCandidate_nonempty: "fst (fetchCandidate w url) = Some recs \<Longrightarrow> recs \<noteq> []"
  by (auto simp: fetchCandidate_def split: prod.splits sum.splits option.splits
      dest: parseBody_nonempty)

subsection \<open>Cache keys\<close>

lemma digit_char_neq_dash: "d < 10 \<Longrightarrow> digit_char d \<noteq> CHR ''-''"
proof
  assume d: "d < 10" and "digit_char d = CHR ''-''"
  then have "of_char (char_of (48 + d) :: char) = (of_char (CHR ''-'') :: nat)"
    by (simp add: digit_char_def)
  with d show False by simp
qed

lemma digit_char_inj: "d < 10 \<Longrightarrow> d' < 10 \<Longrightarrow> digit_char d = digit_char d' \<Longrightarrow> d = d'"
proof -
  assume d: "d < 10" "d' < 10" and "digit_char d = digit_char d'"
  then have "of_char (char_of (48 + d) :: char) = (of_char (char_of (48 + d') :: char) :: nat)"
    by (simp add: digit_char_def)
  with d show "d = d'" by simp
qed

lemma show_nat_no_dash: "CHR ''-'' \<notin> set (show_nat n)"
proof (induction n rule: show_nat.induct)
  case (1 n)
  show ?case
  proof (cases "n < 10")
    case True
    then show ?thesis
      by (subst show_nat.simps) (simp add: digit_char_neq_dash [symmetric] digit_char_neq_dash)
  next
    case False
    have "digit_char (n mod 10) \<noteq> CHR ''-''" by (rule digit_char_neq_dash) simp
    with False "1.IH" show ?thesis
      by (subst show_nat.simps) auto
  qed
qed

lemma show_nat_length: "length (show_nat n) = 1 \<longleftrightarrow> n < 10"
proof (cases "n < 10")
  case True
  then show ?thesis by (subst show_nat.simps) simp
next
  case False
  have "show_nat (n div 10) \<noteq> []" by (subst show_nat.simps) simp
  with False show ?thesis by (subst show_nat.simps) simp
qed

lemma show_nat_inj: "show_nat n = show_nat m \<Longrightarrow> n = m"
proof (induction n arbitrary: m rule: show_nat.induct)
  case (1 n)
  show ?case
  proof (cases "n < 10")
    case True
    with "1.prems" have m: "m < 10"
      using show_nat_length [of n] show_nat_length [of m] by simp
    from True m "1.prems" have "digit_char n = digit_char m"
      by (simp add: show_nat.simps [of n] show_nat.simps [of m])
    with True m show ?thesis by (rule digit_char_inj)
  next
    case False
    with "1.prems" have m: "\<not> m < 10"
      using show_nat_length [of n] show_nat_length [of m] by simp
    from False m "1.prems" have eq: "show_nat (n div 10) = show_nat (m div 10)"
      "digit_char (n mod 10) = digit_char (m mod 10)"
      by (simp_all add: show_nat.simps [of n] show_nat.simps [of m])
    from "1.IH" [OF False eq(1)] have "n div 10 = m div 10" .
    moreover have "n mod 10 = m mod 10"
      by (rule digit_char_inj [OF _ _ eq(2)]) simp_all
    ultimately show ?thesis by (metis div_mult_mod_eq)
  qed
qed

lemma first_occurrence_split:
  "c \<notin> set xs \<Longrightarrow> c \<notin> set ys \<Longrightarrow> xs @ c # p = ys @ c # q \<Longrightarrow> xs = ys \<and> p = q"
proof (induction xs arbitrary: ys)
  case Nil
  show ?case
  proof (cases ys)
    case Nil
    with Nil.prems show ?thesis by simp
  next
    case (Cons y ys')
    with Nil.prems show ?thesis by simp
  qed
next
  case (Cons x xs)
  show ?case
  proof (cases ys)
    case Nil
    with Cons.prems show ?thesis by simp
  next
    case (Cons y ys')
    with Cons.prems have "c \<notin> set xs" "c \<notin> set ys'" "xs @ c # p = ys' @ c # q" "x = y"
      by simp_all
    with Cons.IH [of ys'] Cons show ?thesis by simp
  qed
qed

lemma split_at_dash:
  assumes "CHR ''-'' \<notin> set xs" "CHR ''-'' \<notin> set ys"
  shows "p @ CHR ''-'' # xs = q @ CHR ''-'' # ys \<longleftrightarrow> p = q \<and> xs = ys"
proof
  assume "p @ CHR ''-'' # xs = q @ CHR ''-'' # ys"
  then have "rev (p @ CHR ''-'' # xs) = rev (q @ CHR ''-'' # ys)" by simp
  then have "rev xs @ CHR ''-'' # rev p = rev ys @ CHR ''-'' # rev q" by simp
  moreover have "CHR ''-'' \<notin> set (rev xs)" "CHR ''-'' \<notin> set (rev ys)"
    using assms by simp_all
  ultimately have "rev xs = rev ys \<and> rev p = rev q"
    by (rule first_occurrence_split [rotated 2])
  then show "p = q \<and> xs = ys" by simp
qed simp

lemma cacheKeyOf_eq_iff:
  "cacheKeyOf p t = cacheKeyOf p' t' \<longleftrightarrow> p = p' \<and> bucketOf t = bucketOf t'"
  using split_at_dash [OF show_nat_no_dash show_nat_no_dash, of p "bucketOf t" p' "bucketOf t'"]
  by (auto simp: cacheKeyOf_def dest: show_nat_inj)

lemma suffix_cacheKeyOf:
  "suffix (CHR ''-'' # show_nat b) (cacheKeyOf p t) \<longleftrightarrow> bucketOf t = b"
proof
  assume "suffix (CHR ''-'' # show_nat b) (cacheKeyOf p t)"
  then obtain q where "p @ CHR ''-'' # show_nat (bucketOf t) = q @ CHR ''-'' # show_nat b"
    by (auto simp: suffix_def cacheKeyOf_def)
  then have "show_nat (bucketOf t) = show_nat b"
    using split_at_dash [OF show_nat_no_dash show_nat_no_dash] by blast
  then show "bucketOf t = b" by (rule show_nat_inj)
next
  assume "bucketOf t = b"
  then show "suffix (CHR ''-'' # show_nat b) (cacheKeyOf p t)"
    by (auto simp: suffix_def cacheKeyOf_def)
qed



lemma set_cacheSet: "set (cacheSet k v c) \<subseteq> insert (k, v) (set c)"
  by (induction c) (auto split: if_splits)


text \<open>
  The cleaning loop reads the clock once per key: the key in place \<open>j\<close> stays when it
  ends with the bucket of reading \<open>j\<close>.
\<close>

lemma pruneLoop_subset: "slot \<in> set (pruneLoop clock i c) \<Longrightarrow> slot \<in> set c"
proof (induction c arbitrary: i)
  case Nil
  then show ?case by simp
next
  case (Cons s rest)
  obtain k0 v0 where s: "s = (k0, v0)" by (cases s)
  from Cons.prems have "slot = s \<or> slot \<in> set (pruneLoop clock (Suc i) rest)"
    by (auto simp: s split: if_splits)
  with Cons.IH show ?case by auto
qed






subsection \<open>fetchCryptoData, case by case\<close>

lemma fetchCryptoData_hit:
  assumes "opt_useCache opts \<noteq> Some False"
      and "map_of (cache f) (cacheKeyOf (pathOf exchange asset timeframe date) (now_key w)) = Some hit"
  shows "fetchCryptoData w f exchange asset timeframe date opts = (Inr hit, f, [])"
  using assms by (cases "opt_useCache opts") (auto simp: fetchCryptoData_def Let_def)

lemma fetchCryptoData_miss:
  assumes "opt_useCache opts = Some False \<or>
           map_of (cache f) (cacheKeyOf (pathOf exchange asset timeframe date) (now_key w)) = None"
  shows "fetchCryptoData w f exchange asset timeframe date opts =
     (case urlLoop w (candidateUrls w f (pathOf exchange asset timeframe date)) None None of
        (None, latest, tr) \<Rightarrow> (Inl FetchExhausted, f, tr)
      | (Some r, latest, tr) \<Rightarrow>
          (Inr r,
           if opt_useCache opts = Some False then f
           else f\<lparr> cache := pruneCache (now_prune w)
                     (cacheSet (cacheKeyOf (pathOf exchange asset timeframe date) (now_key w)) r (cache f)) \<rparr>,
           tr))"
  using assms
  by (cases "opt_useCache opts")
     (auto simp: fetchCryptoData_def Let_def split: prod.splits option.splits)

lemma fetchCryptoData_miss_trace:
  assumes "opt_useCache opts = Some False \<or>
           map_of (cache f) (cacheKeyOf (pathOf exchange asset timeframe date) (now_key w)) = None"
      and "fetchCryptoData w f exchange asset timeframe date opts = (out, f', tr)"
      and "url \<in> set (candidateUrls w f (pathOf exchange asset timeframe date))"
  shows "Request url \<in> set tr"
proof -
  obtain b l t where u: "urlLoop w (candidateUrls w f (pathOf exchange asset timeframe date)) None None = (b, l, t)"
    by (metis prod_cases3)
  from assms(2) have "tr = t"
    unfolding fetchCryptoData_miss [OF assms(1)] u by (cases b) auto
  with urlLoop_requests [OF u assms(3)] show ?thesis by simp
qed

lemma fetchCryptoData_baseUrl:
  "fetchCryptoData w f exchange asset timeframe date opts = (out, f', tr) \<Longrightarrow> baseUrl f' = baseUrl f"
  by (auto simp: fetchCryptoData_def Let_def split: option.splits prod.splits if_splits)

lemma fetchCryptoData_cacheOK:
  assumes "fetchCryptoData w f exchange asset timeframe date opts = (out, f', tr)" "cacheOK f"
  shows "cacheOK f' \<and> (\<forall>d. out = Inr d \<longrightarrow> records d \<noteq> [])"
proof (cases "opt_useCache opts \<noteq> Some False \<and>
    map_of (cache f) (cacheKeyOf (pathOf exchange asset timeframe date) (now_key w)) \<noteq> None")
  case True
  then obtain hit where hit:
    "map_of (cache f) (cacheKeyOf (pathOf exchange asset timeframe date) (now_key w)) = Some hit"
    by auto
  from fetchCryptoData_hit [OF _ hit] True assms(1) have "out = Inr hit" "f' = f" by simp_all
  moreover from map_of_SomeD [OF hit] assms(2) have "records hit \<noteq> []"
    by (auto simp: cacheOK_def)
  ultimately show ?thesis using assms(2) by simp
next
  case False
  then have m: "opt_useCache opts = Some False \<or>
    map_of (cache f) (cacheKeyOf (pathOf exchange asset timeframe date) (now_key w)) = None"
    by auto
  obtain b l t where u:
    "urlLoop w (candidateUrls w f (pathOf exchange asset timeframe date)) None None = (b, l, t)"
    by (metis prod_cases3)
  show ?thesis
  proof (cases b)
    case None
    with assms(1) u have "out = Inl FetchExhausted" "f' = f"
      unfolding fetchCryptoData_miss [OF m] by simp_all
    with assms(2) show ?thesis by simp
  next
    case (Some r)
    have "sel_inv w {} None None" by (simp add: sel_inv_def)
    from urlLoop_inv [OF u this] Some
    have "fst (fetchCandidate w (md_url (metadata r))) = Some (records r)"
      by (simp add: sel_inv_def)
    then have r: "records r \<noteq> []" by (rule fetchCandidate_nonempty)
    from assms(1) u Some have out: "out = Inr r"
      and f': "f' = f \<or> f' = f\<lparr> cache := pruneCache (now_prune w)
                     (cacheSet (cacheKeyOf (pathOf exchange asset timeframe date) (now_key w)) r (cache f)) \<rparr>"
      unfolding fetchCryptoData_miss [OF m] by auto
    have "cacheOK f'"
      using f' assms(2) r set_cacheSet [of "cacheKeyOf (pathOf exchange asset timeframe date) (now_key w)" r "cache f"]
      by (auto simp: cacheOK_def pruneCache_def dest!: pruneLoop_subset)
    with out r show ?thesis by simp
  qed
qed

subsection \<open>The example world\<close>

lemma example_urls:
  "candidateUrls (exampleWorld t0 t1) (f\<lparr> baseUrl := ''https://storage.googleapis.com/bananazone'' \<rparr>)
     (pathOf ''coinbase'' ''BTC'' ''1min'' ''2025-09-09'')
   = [exampleUrl ''t=1757439877000&v=k3x9&cb=1757439877001'',
      exampleUrl ''nocache=1757439877002'', exampleUrl ''_=0.4913'']"
  by (simp add: candidateUrls_def getCacheBustingUrl_def pathOf_def exampleWorld_def exampleUrl_def)

lemma example_candidate_1:
  "fetchCandidate (exampleWorld t0 t1) (exampleUrl ''t=1757439877000&v=k3x9&cb=1757439877001'')
     = (Some [exampleRecord ''2025-09-09T17:44:37Z'' 111088.5],
        [Request (exampleUrl ''t=1757439877000&v=k3x9&cb=1757439877001''), Sleep 1000,
         Request (exampleUrl ''t=1757439877000&v=k3x9&cb=1757439877001'')])"
  by (simp add: fetchCandidate_def fetchWithCacheBusting_def fetchAttempts_two attemptOutcome_def
      exampleWorld_def exampleRespond_def exampleUrl_def response_ok_def parseBody_def trim_def
      isSpace_def exampleParse_def List.map_filter_def)

lemma example_candidate_2:
  "fetchCandidate (exampleWorld t0 t1) (exampleUrl ''nocache=1757439877002'')
     = (Some [exampleRecord ''2025-09-09T17:44:37Z'' 111088.5,
              exampleRecord ''2025-09-09T17:46:37Z'' 111095.25],
        [Request (exampleUrl ''nocache=1757439877002'')])"
  by (simp add: fetchCandidate_def fetchWithCacheBusting_def fetchAttempts_two attemptOutcome_def
      exampleWorld_def exampleRespond_def exampleUrl_def response_ok_def parseBody_def trim_def
      isSpace_def exampleParse_def List.map_filter_def)

lemma example_candidate_3:
  "fetchCandidate (exampleWorld t0 t1) (exampleUrl ''_=0.4913'')
     = (Some [exampleRecord ''2025-09-09T17:45:37Z'' 111090],
        [Request (exampleUrl ''_=0.4913'')])"
  by (simp add: fetchCandidate_def fetchWithCacheBusting_def fetchAttempts_two attemptOutcome_def
      exampleWorld_def exampleRespond_def exampleUrl_def response_ok_def parseBody_def trim_def
      isSpace_def exampleParse_def List.map_filter_def)

lemma example_fields:
  "clock_iso (exampleWorld t0 t1) url = ''2025-09-09T17:44:38.000Z''"
  "now_key (exampleWorld t0 t1) = t0"
  "now_prune (exampleWorld t0 t1) i = t1"
  by (simp_all add: exampleWorld_def)

lemma example_urlLoop:
  "urlLoop (exampleWorld t0 t1)
     [exampleUrl ''t=1757439877000&v=k3x9&cb=1757439877001'',
      exampleUrl ''nocache=1757439877002'', exampleUrl ''_=0.4913''] None None
   = (Some exampleResult, Some ''2025-09-09T17:46:37Z'', exampleTrace)"
  by (simp add: example_candidate_1 example_candidate_2 example_candidate_3 Let_def falsy_def
      ts_gt_def exampleRecord_def exampleResult_def exampleTrace_def example_fields
      less_char_def)

lemma example_fetch:
  assumes "bucketOf t0 = bucketOf t1"
  shows "fetchCryptoData (exampleWorld t0 t1) (newFetcher ''bananazone'')
           ''coinbase'' ''BTC'' ''1min'' ''2025-09-09'' defaultOptions
         = (Inr exampleResult,
            (newFetcher ''bananazone'')
              \<lparr> cache := [(cacheKeyOf (pathOf ''coinbase'' ''BTC'' ''1min'' ''2025-09-09'') t0,
                           exampleResult)] \<rparr>,
            exampleTrace)"
proof -
  have m: "opt_useCache defaultOptions = Some False \<or>
           map_of (cache (newFetcher ''bananazone''))
             (cacheKeyOf (pathOf ''coinbase'' ''BTC'' ''1min'' ''2025-09-09'')
                (now_key (exampleWorld t0 t1))) = None"
    by (simp add: newFetcher_def)
  have urls: "candidateUrls (exampleWorld t0 t1) (newFetcher ''bananazone'')
                (pathOf ''coinbase'' ''BTC'' ''1min'' ''2025-09-09'')
              = [exampleUrl ''t=1757439877000&v=k3x9&cb=1757439877001'',
                 exampleUrl ''nocache=1757439877002'', exampleUrl ''_=0.4913'']"
    using example_urls [of t0 t1 "newFetcher ''bananazone''"] by (simp add: newFetcher_def)
  show ?thesis
    unfolding fetchCryptoData_miss [OF m] urls example_urlLoop
    using assms
    by (simp add: defaultOptions_def newFetcher_def example_fields pruneCache_def
        suffix_cacheKeyOf)
qed

lemma example_fetch_nocache:
  "fetchCryptoData (exampleWorld t0 t1) ((newFetcher ''bananazone'')\<lparr> cache := c \<rparr>)
     ''coinbase'' ''BTC'' ''1min'' ''2025-09-09'' (defaultOptions\<lparr> opt_useCache := Some False \<rparr>)
   = (Inr exampleResult, (newFetcher ''bananazone'')\<lparr> cache := c \<rparr>, exampleTrace)"
proof -
  let ?f = "(newFetcher ''bananazone'')\<lparr> cache := c \<rparr>"
  let ?o = "defaultOptions\<lparr> opt_useCache := Some False \<rparr>"
  have m: "opt_useCache ?o = Some False \<or>
           map_of (cache ?f)
             (cacheKeyOf (pathOf ''coinbase'' ''BTC'' ''1min'' ''2025-09-09'')
                (now_key (exampleWorld t0 t1))) = None"
    by simp
  have urls: "candidateUrls (exampleWorld t0 t1) ?f
                (pathOf ''coinbase'' ''BTC'' ''1min'' ''2025-09-09'')
              = [exampleUrl ''t=1757439877000&v=k3x9&cb=1757439877001'',
                 exampleUrl ''nocache=1757439877002'', exampleUrl ''_=0.4913'']"
    using example_urls [of t0 t1 ?f] by (simp add: newFetcher_def)
  show ?thesis
    unfolding fetchCryptoData_miss [OF m] urls example_urlLoop by simp
qed

lemma example_buckets:
  "bucketOf 1757439877000 = 58581329" "bucketOf 1757439879000 = 58581329"
  "bucketOf 1757439885000 = 58581329" "bucketOf 1757439905000 = 58581330"
  "bucketOf 1757439871000 = 58581329" "bucketOf 1757439899999 = 58581329"
  "bucketOf 1757439900001 = 58581330"
  by (simp_all add: bucketOf_def cacheTimeout_def)

subsection \<open>Freshness arbitration\<close>

text \<open>
  Claim C1. When a call goes to the network and succeeds, the result it returns is the
  candidate of one of the round's URLs, its \<open>timestamp\<close> is the \<open>t\<close> of its last record,
  and no candidate of the round declares a later timestamp: the choice rests on the
  timestamps in the payloads, whatever the place of the URL in the list.
\<close>

theorem winner_has_latest_timestamp:
  assumes "fetchCryptoData w f exchange asset timeframe date opts = (Inr r, f', tr)"
      and "opt_useCache opts = Some False \<or>
           map_of (cache f) (cacheKeyOf (pathOf exchange asset timeframe date) (now_key w)) = None"
      and "urls = candidateUrls w f (pathOf exchange asset timeframe date)"
  shows "md_url (metadata r) \<in> set urls \<and>
         fst (fetchCandidate w (md_url (metadata r))) = Some (records r) \<and>
         md_timestamp (metadata r) = r_t (last (records r)) \<and>
         (\<forall>url \<in> set urls. \<forall>recs s.
            fst (fetchCandidate w url) = Some recs \<longrightarrow> r_t (last recs) = Some s \<longrightarrow> s \<noteq> [] \<longrightarrow>
            (\<exists>s'. md_timestamp (metadata r) = Some s' \<and> s \<le> s'))"
proof -
  obtain b l t where u: "urlLoop w urls None None = (b, l, t)"
    by (metis prod_cases3)
  from assms(1) have b: "b = Some r"
    unfolding fetchCryptoData_miss [OF assms(2)] assms(3) [symmetric] u by (cases b) auto
  have "sel_inv w {} None None" by (simp add: sel_inv_def)
  from urlLoop_inv [OF u this] have "sel_inv w (set urls) (Some r) l"
    using b by simp
  then show ?thesis
    unfolding sel_inv_def by auto
qed

text \<open>
  Claim C1 on the example world: the second of the three URLs carries the latest
  timestamp and wins.
\<close>

theorem winner_has_latest_timestamp_witness:
  "fetchCryptoData (exampleWorld 1757439877000 1757439879000) (newFetcher ''bananazone'')
     ''coinbase'' ''BTC'' ''1min'' ''2025-09-09'' defaultOptions
   = (Inr exampleResult,
      (newFetcher ''bananazone'')
        \<lparr> cache := [(cacheKeyOf (pathOf ''coinbase'' ''BTC'' ''1min'' ''2025-09-09'') 1757439877000,
                     exampleResult)] \<rparr>,
      exampleTrace) \<and>
   md_url (metadata exampleResult) = exampleUrl ''nocache=1757439877002'' \<and>
   fst (fetchCandidate (exampleWorld 1757439877000 1757439879000) (md_url (metadata exampleResult)))
     = Some (records exampleResult) \<and>
   md_timestamp (metadata exampleResult) = r_t (last (records exampleResult)) \<and>
   (\<exists>s'. md_timestamp (metadata exampleResult) = Some s' \<and> ''2025-09-09T17:45:37Z'' \<le> s')"
proof -
  let ?w = "exampleWorld 1757439877000 1757439879000" and ?f = "newFetcher ''bananazone''"
  have run: "fetchCryptoData ?w ?f ''coinbase'' ''BTC'' ''1min'' ''2025-09-09'' defaultOptions
     = (Inr exampleResult,
        ?f\<lparr> cache := [(cacheKeyOf (pathOf ''coinbase'' ''BTC'' ''1min'' ''2025-09-09'') 1757439877000,
                     exampleResult)] \<rparr>,
        exampleTrace)"
    by (rule example_fetch) (simp add: example_buckets)
  have miss: "opt_useCache defaultOptions = Some False \<or>
           map_of (cache ?f)
             (cacheKeyOf (pathOf ''coinbase'' ''BTC'' ''1min'' ''2025-09-09'') (now_key ?w)) = None"
    by (simp add: newFetcher_def)
  have urls: "[exampleUrl ''t=1757439877000&v=k3x9&cb=1757439877001'',
               exampleUrl ''nocache=1757439877002'', exampleUrl ''_=0.4913'']
              = candidateUrls ?w ?f (pathOf ''coinbase'' ''BTC'' ''1min'' ''2025-09-09'')"
    using example_urls [of 1757439877000 1757439879000 ?f] by (simp add: newFetcher_def)
  note inst = winner_has_latest_timestamp [OF run miss urls]
  have third: "fst (fetchCandidate ?w (exampleUrl ''_=0.4913''))
                 = Some [exampleRecord ''2025-09-09T17:45:37Z'' 111090]"
    by (simp add: example_candidate_3)
  from inst have bound:
    "\<exists>s'. md_timestamp (metadata exampleResult) = Some s' \<and> s \<le> s'"
    if "url \<in> set [exampleUrl ''t=1757439877000&v=k3x9&cb=1757439877001'',
               exampleUrl ''nocache=1757439877002'', exampleUrl ''_=0.4913'']"
       "fst (fetchCandidate ?w url) = Some recs" "r_t (last recs) = Some s" "s \<noteq> []"
    for url recs s
    using that by blast
  have "\<exists>s'. md_timestamp (metadata exampleResult) = Some s' \<and> ''2025-09-09T17:45:37Z'' \<le> s'"
    by (rule bound [OF _ third]) (simp_all add: exampleRecord_def)
  moreover have "md_url (metadata exampleResult) = exampleUrl ''nocache=1757439877002''"
    by (simp add: exampleResult_def)
  ultimately show ?thesis using inst run by blast
qed

subsection \<open>Retries\<close>

text \<open>
  Claim C2. When every request is answered with HTTP 500 the call fails with
  \<open>FetchExhausted\<close>, but each URL is requested twice, under the default options
  (\<open>maxRetries\<close> 3) as under \<open>maxRetries\<close> 5: the option is read and never used.
\<close>

theorem retries_ignore_maxRetries:
  "fetchCryptoData failingWorld (newFetcher ''bananazone'')
     ''coinbase'' ''BTC'' ''1min'' ''2025-09-09'' defaultOptions
   = (Inl FetchExhausted, newFetcher ''bananazone'',
      [Request (exampleUrl ''t=1757439877000&v=k3x9&cb=1757439877001''), Sleep 1000,
       Request (exampleUrl ''t=1757439877000&v=k3x9&cb=1757439877001''),
       Request (exampleUrl ''nocache=1757439877002''), Sleep 1000,
       Request (exampleUrl ''nocache=1757439877002''),
       Request (exampleUrl ''_=0.4913''), Sleep 1000,
       Request (exampleUrl ''_=0.4913'')]) \<and>
   fetchCryptoData failingWorld (newFetcher ''bananazone'')
     ''coinbase'' ''BTC'' ''1min'' ''2025-09-09'' (defaultOptions\<lparr> opt_maxRetries := Some 5 \<rparr>)
   = fetchCryptoData failingWorld (newFetcher ''bananazone'')
     ''coinbase'' ''BTC'' ''1min'' ''2025-09-09'' defaultOptions \<and>
   opt_maxRetries defaultOptions = None"
proof -
  have fail: "\<exists>e. attemptOutcome (respond failingWorld) url n = Inl e" for url n
    by (simp add: failingWorld_def attemptOutcome_def response_ok_def)
  have m: "opt_useCache opts = Some False \<or>
           map_of (cache (newFetcher ''bananazone''))
             (cacheKeyOf (pathOf ''coinbase'' ''BTC'' ''1min'' ''2025-09-09'')
                (now_key failingWorld)) = None" for opts
    by (simp add: newFetcher_def)
  have urls: "candidateUrls failingWorld (newFetcher ''bananazone'')
                (pathOf ''coinbase'' ''BTC'' ''1min'' ''2025-09-09'')
              = [exampleUrl ''t=1757439877000&v=k3x9&cb=1757439877001'',
                 exampleUrl ''nocache=1757439877002'', exampleUrl ''_=0.4913'']"
    by (simp add: candidateUrls_def getCacheBustingUrl_def pathOf_def exampleWorld_def
        failingWorld_def exampleUrl_def newFetcher_def)
  have run: "fetchCryptoData failingWorld (newFetcher ''bananazone'')
     ''coinbase'' ''BTC'' ''1min'' ''2025-09-09'' opts
   = (Inl FetchExhausted, newFetcher ''bananazone'',
      [Request (exampleUrl ''t=1757439877000&v=k3x9&cb=1757439877001''), Sleep 1000,
       Request (exampleUrl ''t=1757439877000&v=k3x9&cb=1757439877001''),
       Request (exampleUrl ''nocache=1757439877002''), Sleep 1000,
       Request (exampleUrl ''nocache=1757439877002''),
       Request (exampleUrl ''_=0.4913''), Sleep 1000,
       Request (exampleUrl ''_=0.4913'')])" for opts
    unfolding fetchCryptoData_miss [OF m] urls urlLoop_all_fail [OF fail] by simp
  show ?thesis
    by (simp add: run defaultOptions_def)
qed

subsection \<open>The result cache\<close>





text \<open>
  One cleaning can leave keys of two buckets, when the clock crosses a boundary during
  the loop and the map holds a key of the later bucket already: this is what the
  condition on the cache in claim C4 excludes.
\<close>

lemma pruneCache_two_buckets:
  "pruneCache (\<lambda>i. if i = 0 then 1757439899999 else 1757439900001)
     [(cacheKeyOf p 1757439871000, v), (cacheKeyOf q 1757439905000, v')]
   = [(cacheKeyOf p 1757439871000, v), (cacheKeyOf q 1757439905000, v')]"
  by (simp add: pruneCache_def suffix_cacheKeyOf example_buckets)




text \<open>
  Claim C9. With \<open>useCache = false\<close> the call leaves the fetcher as it was, its outcome
  and its trace do not depend on what the cache holds, and every candidate URL is
  requested.
\<close>

theorem no_cache_leaves_cache_alone:
  assumes "opt_useCache opts = Some False"
      and "fetchCryptoData w f exchange asset timeframe date opts = (out, f', tr)"
  shows "f' = f \<and>
         fetchCryptoData w (f\<lparr> cache := c \<rparr>) exchange asset timeframe date opts
           = (out, f\<lparr> cache := c \<rparr>, tr) \<and>
         (\<forall>url \<in> set (candidateUrls w f (pathOf exchange asset timeframe date)). Request url \<in> set tr)"
proof -
  have m: "opt_useCache opts = Some False \<or>
           map_of (cache g) (cacheKeyOf (pathOf exchange asset timeframe date) (now_key w)) = None" for g
    using assms(1) by simp
  have urls: "candidateUrls w (f\<lparr> cache := c \<rparr>) p = candidateUrls w f p" for p
    by (simp add: candidateUrls_def getCacheBustingUrl_def)
  obtain b l t where u: "urlLoop w (candidateUrls w f (pathOf exchange asset timeframe date)) None None = (b, l, t)"
    by (metis prod_cases3)
  from assms(2) have 1: "f' = f" and 2: "tr = t"
    and 3: "out = (case b of None \<Rightarrow> Inl FetchExhausted | Some r \<Rightarrow> Inr r)"
    unfolding fetchCryptoData_miss [OF m] u using assms(1) by (cases b; simp)+
  have 4: "fetchCryptoData w (f\<lparr> cache := c \<rparr>) exchange asset timeframe date opts
           = (out, f\<lparr> cache := c \<rparr>, tr)"
    unfolding fetchCryptoData_miss [OF m] urls u using assms(1) 2 3 by (cases b) simp_all
  have 5: "\<forall>url \<in> set (candidateUrls w f (pathOf exchange asset timeframe date)). Request url \<in> set tr"
    using fetchCryptoData_miss_trace [OF m assms(2)] by blast
  from 1 4 5 show ?thesis by blast
qed

text \<open>Claim C9 on the example world, with a stale entry in the cache and without.\<close>

theorem no_cache_leaves_cache_alone_witness:
  "fetchCryptoData (exampleWorld 1757439877000 1757439879000)
     ((newFetcher ''bananazone'')\<lparr> cache := [(''stale-1'', exampleResult)] \<rparr>)
     ''coinbase'' ''BTC'' ''1min'' ''2025-09-09'' (defaultOptions\<lparr> opt_useCache := Some False \<rparr>)
   = (Inr exampleResult,
      (newFetcher ''bananazone'')\<lparr> cache := [(''stale-1'', exampleResult)] \<rparr>, exampleTrace) \<and>
   fetchCryptoData (exampleWorld 1757439877000 1757439879000)
     ((newFetcher ''bananazone'')\<lparr> cache := [] \<rparr>)
     ''coinbase'' ''BTC'' ''1min'' ''2025-09-09'' (defaultOptions\<lparr> opt_useCache := Some False \<rparr>)
   = (Inr exampleResult, (newFetcher ''bananazone'')\<lparr> cache := [] \<rparr>, exampleTrace) \<and>
   Request (exampleUrl ''nocache=1757439877002'') \<in> set exampleTrace"
proof -
  let ?w = "exampleWorld 1757439877000 1757439879000"
  let ?f = "(newFetcher ''bananazone'')\<lparr> cache := [(''stale-1'', exampleResult)] \<rparr>"
  let ?o = "defaultOptions\<lparr> opt_useCache := Some False \<rparr>"
  have off: "opt_useCache ?o = Some False" by simp
  have run: "fetchCryptoData ?w ?f ''coinbase'' ''BTC'' ''1min'' ''2025-09-09'' ?o
               = (Inr exampleResult, ?f, exampleTrace)"
    by (rule example_fetch_nocache)
  note inst = no_cache_leaves_cache_alone [OF off run, of "[]"]
  have urls: "candidateUrls ?w ?f (pathOf ''coinbase'' ''BTC'' ''1min'' ''2025-09-09'')
              = [exampleUrl ''t=1757439877000&v=k3x9&cb=1757439877001'',
                 exampleUrl ''nocache=1757439877002'', exampleUrl ''_=0.4913'']"
    using example_urls [of 1757439877000 1757439879000 ?f] by (simp add: newFetcher_def)
  from inst have "fetchCryptoData ?w (?f\<lparr> cache := [] \<rparr>) ''coinbase'' ''BTC'' ''1min'' ''2025-09-09'' ?o
      = (Inr exampleResult, ?f\<lparr> cache := [] \<rparr>, exampleTrace)"
    by blast
  then have second: "fetchCryptoData ?w ((newFetcher ''bananazone'')\<lparr> cache := [] \<rparr>)
      ''coinbase'' ''BTC'' ''1min'' ''2025-09-09'' ?o
      = (Inr exampleResult, (newFetcher ''bananazone'')\<lparr> cache := [] \<rparr>, exampleTrace)"
    by simp
  from inst have "\<forall>url \<in> set (candidateUrls ?w ?f (pathOf ''coinbase'' ''BTC'' ''1min'' ''2025-09-09'')).
                    Request url \<in> set exampleTrace"
    by blast
  then have "Request (exampleUrl ''nocache=1757439877002'') \<in> set exampleTrace"
    unfolding urls by simp
  with run second show ?thesis by blast
qed

subsection \<open>getLatestPrices\<close>

lemma priceEntry_next:
  assumes "priceEntry w f exchange asset date opts = (entry, f', tr)"
  shows "baseUrl f' = baseUrl f \<and> (cacheOK f \<longrightarrow> cacheOK f')"
proof -
  obtain out f1 tr1 where run: "fetchCryptoData w f exchange asset ''1min'' date opts = (out, f1, tr1)"
    by (metis prod_cases3)
  with assms have "f' = f1" by (auto simp: priceEntry_def split: sum.splits)
  with fetchCryptoData_baseUrl [OF run] fetchCryptoData_cacheOK [OF run] show ?thesis by blast
qed

lemma priceEntry_entry:
  "fst (priceEntry w f exchange asset date opts) =
     (case fst (fetchCryptoData w f exchange asset ''1min'' date opts) of
        Inl e \<Rightarrow> None
      | Inr d \<Rightarrow>
          if records d = [] then None
          else Some \<lparr> ps_price = r_mid (last (records d)), ps_timestamp = r_t (last (records d)),
                      ps_spread = r_spread_L5_pct (last (records d)),
                      ps_volume = js_add (r_vol_L50_bids (last (records d)))
                                         (r_vol_L50_asks (last (records d))),
                      ps_recordCount = length (records d),
                      ps_fetchTime = md_fetchTime (metadata d) \<rparr>)"
  by (auto simp: priceEntry_def summaryOf_def Let_def split: prod.splits sum.splits)

lemma priceEntry_state:
  "fst (snd (priceEntry w f exchange asset date opts)) =
     fst (snd (fetchCryptoData w f exchange asset ''1min'' date opts))"
  by (auto simp: priceEntry_def split: prod.splits sum.splits)

lemma fetcherAfter_Nil: "fetcherAfter ws date opts f [] = f"
  by (simp add: fetcherAfter_def)

lemma fetcherAfter_Cons:
  "fetcherAfter ws date opts f ((x, a) # pairs) =
     fetcherAfter ws date opts (fst (snd (fetchCryptoData (ws x a) f x a ''1min'' date opts))) pairs"
  by (simp add: fetcherAfter_def)

lemma fetcherAfter_append:
  "fetcherAfter ws date opts f (ps @ qs) = fetcherAfter ws date opts (fetcherAfter ws date opts f ps) qs"
  by (simp add: fetcherAfter_def)

lemma fetcherAfter_cacheOK: "cacheOK f \<Longrightarrow> cacheOK (fetcherAfter ws date opts f pairs)"
proof (induction pairs arbitrary: f)
  case Nil
  then show ?case by (simp add: fetcherAfter_Nil)
next
  case (Cons p pairs)
  obtain x a where p: "p = (x, a)" by (cases p)
  obtain out f1 tr where run: "fetchCryptoData (ws x a) f x a ''1min'' date opts = (out, f1, tr)"
    by (metis prod_cases3)
  from fetchCryptoData_cacheOK [OF run Cons.prems] have "cacheOK f1" by simp
  from Cons.IH [OF this] show ?case by (simp add: p fetcherAfter_Cons run)
qed

lemma length_entriesFrom: "length (entriesFrom ws date opts pairs f) = length pairs"
  by (induction ws date opts pairs f rule: entriesFrom.induct) simp_all

lemma entriesFrom_split:
  "entriesFrom ws date opts (bs @ (x, a) # cs) f =
     entriesFrom ws date opts bs f
     @ fst (priceEntry (ws x a) (fetcherAfter ws date opts f bs) x a date opts)
     # entriesFrom ws date opts cs (fetcherAfter ws date opts f (bs @ [(x, a)]))"
proof (induction bs arbitrary: f)
  case Nil
  show ?case by (simp add: fetcherAfter_Nil fetcherAfter_Cons priceEntry_state)
next
  case (Cons b bs)
  obtain y c where b: "b = (y, c)" by (cases b)
  show ?case by (simp add: b Cons.IH fetcherAfter_Cons priceEntry_state)
qed

text \<open>The two loops in closed form.\<close>

lemma assetLoop_eq:
  "assetLoop ws date opts x assets f row = (row', f', tr) \<Longrightarrow>
     row' = row @ zip assets (entriesFrom ws date opts (map (Pair x) assets) f) \<and>
     f' = fetcherAfter ws date opts f (map (Pair x) assets)"
proof (induction assets arbitrary: f row row' f' tr)
  case Nil
  then show ?case by (simp add: fetcherAfter_Nil)
next
  case (Cons a rest)
  obtain e f1 t1 where p: "priceEntry (ws x a) f x a date opts = (e, f1, t1)"
    by (metis prod_cases3)
  obtain row2 f2 t2 where
    l: "assetLoop ws date opts x rest f1 (row @ [(a, e)]) = (row2, f2, t2)"
    by (metis prod_cases3)
  from Cons.prems p l have r: "row' = row2" "f' = f2" by simp_all
  from priceEntry_state [of "ws x a" f x a date opts] p
  have f1: "fst (snd (fetchCryptoData (ws x a) f x a ''1min'' date opts)) = f1" by simp
  from Cons.IH [OF l] r show ?case by (simp add: p fetcherAfter_Cons f1)
qed

lemma exchangeLoop_eq:
  "exchangeLoop ws date opts exchanges assets f results = (results', f', tr) \<Longrightarrow>
     f' = fetcherAfter ws date opts f (List.product exchanges assets) \<and>
     map fst results' = map fst results @ exchanges \<and>
     set results \<subseteq> set results' \<and>
     (\<forall>xs x xs'. exchanges = xs @ x # xs' \<longrightarrow>
        (x, zip assets (entriesFrom ws date opts (map (Pair x) assets)
                          (fetcherAfter ws date opts f (List.product xs assets)))) \<in> set results')"
proof (induction exchanges arbitrary: f results results' f' tr)
  case Nil
  then show ?case by (simp add: fetcherAfter_Nil)
next
  case (Cons x0 rest)
  obtain row f1 t1 where a: "assetLoop ws date opts x0 assets f [] = (row, f1, t1)"
    by (metis prod_cases3)
  obtain res2 f2 t2 where
    l: "exchangeLoop ws date opts rest assets f1 (results @ [(x0, row)]) = (res2, f2, t2)"
    by (metis prod_cases3)
  from Cons.prems a l have r: "results' = res2" "f' = f2" by simp_all
  from assetLoop_eq [OF a] have row:
    "row = zip assets (entriesFrom ws date opts (map (Pair x0) assets) f)"
    "f1 = fetcherAfter ws date opts f (map (Pair x0) assets)"
    by simp_all
  from Cons.IH [OF l] have ih:
    "f2 = fetcherAfter ws date opts f1 (List.product rest assets)"
    "map fst res2 = map fst (results @ [(x0, row)]) @ rest"
    "set (results @ [(x0, row)]) \<subseteq> set res2"
    "\<And>xs x xs'. rest = xs @ x # xs' \<Longrightarrow>
        (x, zip assets (entriesFrom ws date opts (map (Pair x) assets)
                          (fetcherAfter ws date opts f1 (List.product xs assets)))) \<in> set res2"
    by blast+
  have c1: "f' = fetcherAfter ws date opts f (List.product (x0 # rest) assets)"
    using ih(1) r(2) row(2) by (simp add: fetcherAfter_append)
  have c2: "map fst results' = map fst results @ x0 # rest"
    using ih(2) r(1) by simp
  have c3: "set results \<subseteq> set results'"
    using ih(3) r(1) by auto
  have c4: "(x, zip assets (entriesFrom ws date opts (map (Pair x) assets)
                          (fetcherAfter ws date opts f (List.product xs assets)))) \<in> set results'"
    if split: "x0 # rest = xs @ x # xs'" for xs x xs'
  proof (cases xs)
    case Nil
    with split have "x = x0" by simp
    with ih(3) r(1) row(1) Nil show ?thesis by (simp add: fetcherAfter_Nil)
  next
    case (Cons y ys)
    with split have "y = x0" "rest = ys @ x # xs'" by simp_all
    from ih(4) [OF this(2)] r(1) row(2) Cons \<open>y = x0\<close> show ?thesis
      by (simp add: fetcherAfter_append)
  qed
  from c1 c2 c3 c4 show ?case by blast
qed

text \<open>
  Claim C10. \<open>getLatestPrices\<close> always returns: its result has a row for coinbase and
  one for kraken, each with an entry for BTC, ETH, ADA and XRP, and the fetcher it leaves
  is the one the eight fetches leave, in the order of the loops. The entry of a pair is
  determined by the fetch for the pair from the state \<open>f0\<close> that the fetches for the
  pairs before it have left: \<open>null\<close> when this fetch threw, and otherwise the summary
  of the last record of what it returned (a result without records, which a cache filled
  by \<open>fetchCryptoData\<close> never holds, gives \<open>null\<close> as well).
\<close>

theorem getLatestPrices_entries:
  assumes "getLatestPrices ws today f date opts = (results, f', tr)"
      and "date1 = (case date of None \<Rightarrow> today | Some d \<Rightarrow> if d = [] then today else d)"
      and "[''coinbase'', ''kraken''] = xs @ exchange # xs'"
      and "[''BTC'', ''ETH'', ''ADA'', ''XRP''] = as @ asset # as'"
      and "f0 = fetcherAfter ws date1 opts f
                  (List.product xs [''BTC'', ''ETH'', ''ADA'', ''XRP''] @ map (Pair exchange) as)"
  shows "map fst results = [''coinbase'', ''kraken''] \<and>
         f' = fetcherAfter ws date1 opts f
                (List.product [''coinbase'', ''kraken''] [''BTC'', ''ETH'', ''ADA'', ''XRP'']) \<and>
         (\<exists>row entry.
            map_of results exchange = Some row \<and>
            map fst row = [''BTC'', ''ETH'', ''ADA'', ''XRP''] \<and>
            map_of row asset = Some entry \<and>
            (case fst (fetchCryptoData (ws exchange asset) f0 exchange asset ''1min'' date1 opts) of
               Inl e \<Rightarrow> entry = None
             | Inr d \<Rightarrow>
                 entry =
                   (if records d = [] then None
                    else Some \<lparr> ps_price = r_mid (last (records d)),
                                ps_timestamp = r_t (last (records d)),
                                ps_spread = r_spread_L5_pct (last (records d)),
                                ps_volume = js_add (r_vol_L50_bids (last (records d)))
                                                   (r_vol_L50_asks (last (records d))),
                                ps_recordCount = length (records d),
                                ps_fetchTime = md_fetchTime (metadata d) \<rparr>) \<and>
                 ((\<forall>(k, v) \<in> set (cache f). records v \<noteq> []) \<longrightarrow> records d \<noteq> [])))"
proof -
  let ?xs = "[''coinbase'', ''kraken'']" and ?as = "[''BTC'', ''ETH'', ''ADA'', ''XRP'']"
  define fx where "fx = fetcherAfter ws date1 opts f (List.product xs ?as)"
  define row where "row = zip ?as (entriesFrom ws date1 opts (map (Pair exchange) ?as) fx)"
  define entry where "entry = fst (priceEntry (ws exchange asset) f0 exchange asset date1 opts)"
  have run: "exchangeLoop ws date1 opts ?xs ?as f [] = (results, f', tr)"
    using assms(1) by (simp add: getLatestPrices_def assms(2) Let_def)
  from exchangeLoop_eq [OF run] assms(3) have R:
    "f' = fetcherAfter ws date1 opts f (List.product ?xs ?as)"
    "map fst results = ?xs"
    "(exchange, row) \<in> set results"
    unfolding row_def fx_def by simp_all
  have "distinct (map fst results)" unfolding R(2) by simp
  from map_of_is_SomeI [OF this R(3)] have r1: "map_of results exchange = Some row" .
  have r2: "map fst row = ?as"
    unfolding row_def by (simp add: length_entriesFrom)
  have f0: "f0 = fetcherAfter ws date1 opts fx (map (Pair exchange) as)"
    unfolding assms(5) fx_def by (simp add: fetcherAfter_append)
  have "entriesFrom ws date1 opts (map (Pair exchange) ?as) fx =
          entriesFrom ws date1 opts (map (Pair exchange) as) fx
          @ entry
          # entriesFrom ws date1 opts (map (Pair exchange) as')
              (fetcherAfter ws date1 opts fx (map (Pair exchange) as @ [(exchange, asset)]))"
    unfolding assms(4) entry_def f0 using entriesFrom_split [of ws date1 opts "map (Pair exchange) as"]
    by simp
  then have "row = zip as (entriesFrom ws date1 opts (map (Pair exchange) as) fx)
                 @ (asset, entry)
                 # zip as' (entriesFrom ws date1 opts (map (Pair exchange) as')
                     (fetcherAfter ws date1 opts fx (map (Pair exchange) as @ [(exchange, asset)])))"
    unfolding row_def assms(4) by (simp add: length_entriesFrom)
  then have "(asset, entry) \<in> set row" by simp
  moreover have "distinct (map fst row)" unfolding r2 by simp
  ultimately have r3: "map_of row asset = Some entry" by (simp add: map_of_is_SomeI)
  obtain out f1 tr1 where
    call: "fetchCryptoData (ws exchange asset) f0 exchange asset ''1min'' date1 opts = (out, f1, tr1)"
    by (metis prod_cases3)
  have ok: "(\<forall>(k, v) \<in> set (cache f). records v \<noteq> []) \<longrightarrow> records d \<noteq> []" if "out = Inr d" for d
  proof
    assume "\<forall>(k, v) \<in> set (cache f). records v \<noteq> []"
    then have "cacheOK f" by (simp add: cacheOK_def)
    then have "cacheOK f0" unfolding assms(5) by (rule fetcherAfter_cacheOK)
    from fetchCryptoData_cacheOK [OF call this] that show "records d \<noteq> []" by simp
  qed
  have r4: "case fst (fetchCryptoData (ws exchange asset) f0 exchange asset ''1min'' date1 opts) of
               Inl e \<Rightarrow> entry = None
             | Inr d \<Rightarrow>
                 entry =
                   (if records d = [] then None
                    else Some \<lparr> ps_price = r_mid (last (records d)),
                                ps_timestamp = r_t (last (records d)),
                                ps_spread = r_spread_L5_pct (last (records d)),
                                ps_volume = js_add (r_vol_L50_bids (last (records d)))
                                                   (r_vol_L50_asks (last (records d))),
                                ps_recordCount = length (records d),
                                ps_fetchTime = md_fetchTime (metadata d) \<rparr>) \<and>
                 ((\<forall>(k, v) \<in> set (cache f). records v \<noteq> []) \<longrightarrow> records d \<noteq> [])"
    unfolding entry_def priceEntry_entry using ok call by (cases out) simp_all
  from R(1,2) r1 r2 r3 r4 show ?thesis
    by (intro conjI exI [of _ row] exI [of _ entry])
qed

lemma priceEntry_all_fail:
  assumes "\<And>url n. \<exists>e. attemptOutcome (respond w) url n = Inl e"
      and "opt_useCache opts = Some False \<or>
           map_of (cache f) (cacheKeyOf (pathOf exchange asset ''1min'' date) (now_key w)) = None"
  shows "priceEntry w f exchange asset date opts =
           (None, f, concat (map (\<lambda>u. [Request u, Sleep 1000, Request u])
                               (candidateUrls w f (pathOf exchange asset ''1min'' date))))"
  unfolding priceEntry_def fetchCryptoData_miss [OF assms(2)] urlLoop_all_fail [OF assms(1)]
  by simp

lemma failingWorld_fails: "\<exists>e. attemptOutcome (respond failingWorld) url n = Inl e"
  by (simp add: failingWorld_def attemptOutcome_def response_ok_def)

lemma example_priceEntry:
  "priceEntry (exampleWorld 1757439877000 1757439879000) (newFetcher ''bananazone'')
     ''coinbase'' ''BTC'' ''2025-09-09'' defaultOptions
   = (Some \<lparr> ps_price = Some 111095.25, ps_timestamp = Some ''2025-09-09T17:46:37Z'',
             ps_spread = Some 0.005365,
             ps_volume = Some (5578271088451780 / 2 ^ 48),
             ps_recordCount = 2, ps_fetchTime = ''2025-09-09T17:44:38.000Z'' \<rparr>,
      (newFetcher ''bananazone'')
        \<lparr> cache := [(cacheKeyOf (pathOf ''coinbase'' ''BTC'' ''1min'' ''2025-09-09'') 1757439877000,
                     exampleResult)] \<rparr>,
      exampleTrace)"
proof -
  have run: "fetchCryptoData (exampleWorld 1757439877000 1757439879000) (newFetcher ''bananazone'')
           ''coinbase'' ''BTC'' ''1min'' ''2025-09-09'' defaultOptions
         = (Inr exampleResult,
            (newFetcher ''bananazone'')
              \<lparr> cache := [(cacheKeyOf (pathOf ''coinbase'' ''BTC'' ''1min'' ''2025-09-09'') 1757439877000,
                           exampleResult)] \<rparr>,
            exampleTrace)"
    by (rule example_fetch) (simp add: example_buckets)
  show ?thesis
    unfolding priceEntry_def run
    by (simp add: summaryOf_def exampleResult_def exampleRecord_def js_add_def double_values)
qed

lemma example_other_pairs:
  assumes "exchange \<in> {''coinbase'', ''kraken''}" "asset \<in> {''BTC'', ''ETH'', ''ADA'', ''XRP''}"
      and "(exchange, asset) \<noteq> (''coinbase'', ''BTC'')"
  shows "priceEntry failingWorld
     ((newFetcher ''bananazone'')
        \<lparr> cache := [(cacheKeyOf (pathOf ''coinbase'' ''BTC'' ''1min'' ''2025-09-09'') 1757439877000,
                     exampleResult)] \<rparr>)
     exchange asset ''2025-09-09'' defaultOptions
   = (None,
      (newFetcher ''bananazone'')
        \<lparr> cache := [(cacheKeyOf (pathOf ''coinbase'' ''BTC'' ''1min'' ''2025-09-09'') 1757439877000,
                     exampleResult)] \<rparr>,
      concat (map (\<lambda>u. [Request u, Sleep 1000, Request u])
                (candidateUrls failingWorld (newFetcher ''bananazone'')
                   (pathOf exchange asset ''1min'' ''2025-09-09''))))"
proof -
  let ?f1 = "(newFetcher ''bananazone'')
        \<lparr> cache := [(cacheKeyOf (pathOf ''coinbase'' ''BTC'' ''1min'' ''2025-09-09'') 1757439877000,
                     exampleResult)] \<rparr>"
  have "pathOf exchange asset ''1min'' ''2025-09-09'' \<noteq> pathOf ''coinbase'' ''BTC'' ''1min'' ''2025-09-09''"
    using assms by (auto simp: pathOf_def)
  then have m: "opt_useCache defaultOptions = Some False \<or>
           map_of (cache ?f1) (cacheKeyOf (pathOf exchange asset ''1min'' ''2025-09-09'')
              (now_key failingWorld)) = None"
    by (simp add: cacheKeyOf_eq_iff)
  have urls: "candidateUrls failingWorld ?f1 p = candidateUrls failingWorld (newFetcher ''bananazone'') p" for p
    by (simp add: candidateUrls_def getCacheBustingUrl_def)
  show ?thesis
    unfolding priceEntry_all_fail [OF failingWorld_fails m] urls by simp
qed

lemma example_prices:
  "fst (getLatestPrices exampleWorlds ''2025-09-09'' (newFetcher ''bananazone'') None defaultOptions)
     = examplePrices"
  apply (simp add: getLatestPrices_def Let_def exampleWorlds_def example_priceEntry
      example_other_pairs)
  apply (simp add: examplePrices_def)
  done

lemma example_after_first:
  "fetcherAfter exampleWorlds ''2025-09-09'' defaultOptions (newFetcher ''bananazone'')
     [(''coinbase'', ''BTC'')]
   = (newFetcher ''bananazone'')
       \<lparr> cache := [(cacheKeyOf (pathOf ''coinbase'' ''BTC'' ''1min'' ''2025-09-09'') 1757439877000,
                    exampleResult)] \<rparr>"
proof -
  have "fetchCryptoData (exampleWorld 1757439877000 1757439879000) (newFetcher ''bananazone'')
           ''coinbase'' ''BTC'' ''1min'' ''2025-09-09'' defaultOptions
         = (Inr exampleResult,
            (newFetcher ''bananazone'')
              \<lparr> cache := [(cacheKeyOf (pathOf ''coinbase'' ''BTC'' ''1min'' ''2025-09-09'') 1757439877000,
                           exampleResult)] \<rparr>,
            exampleTrace)"
    by (rule example_fetch) (simp add: example_buckets)
  then show ?thesis
    by (simp add: fetcherAfter_Cons fetcherAfter_Nil exampleWorlds_def)
qed

lemma example_second_fails:
  "fst (fetchCryptoData (exampleWorlds ''coinbase'' ''ETH'')
          ((newFetcher ''bananazone'')
             \<lparr> cache := [(cacheKeyOf (pathOf ''coinbase'' ''BTC'' ''1min'' ''2025-09-09'') 1757439877000,
                          exampleResult)] \<rparr>)
          ''coinbase'' ''ETH'' ''1min'' ''2025-09-09'' defaultOptions)
   = Inl FetchExhausted"
proof -
  let ?f1 = "(newFetcher ''bananazone'')
        \<lparr> cache := [(cacheKeyOf (pathOf ''coinbase'' ''BTC'' ''1min'' ''2025-09-09'') 1757439877000,
                     exampleResult)] \<rparr>"
  have "pathOf ''coinbase'' ''ETH'' ''1min'' ''2025-09-09'' \<noteq> pathOf ''coinbase'' ''BTC'' ''1min'' ''2025-09-09''"
    by (simp add: pathOf_def)
  then have m: "opt_useCache defaultOptions = Some False \<or>
           map_of (cache ?f1) (cacheKeyOf (pathOf ''coinbase'' ''ETH'' ''1min'' ''2025-09-09'')
              (now_key failingWorld)) = None"
    by (simp add: cacheKeyOf_eq_iff)
  have w: "exampleWorlds ''coinbase'' ''ETH'' = failingWorld" by (simp add: exampleWorlds_def)
  show ?thesis
    unfolding w fetchCryptoData_miss [OF m] urlLoop_all_fail [OF failingWorld_fails] by simp
qed

text \<open>
  Claim C10 on the example worlds: the entry of coinbase and BTC is the summary of the
  last record fetched from the new fetcher; the entry of coinbase and ETH is \<open>null\<close>, its
  fetch, from the fetcher that holds the result for BTC, having failed.
\<close>

theorem getLatestPrices_entries_witness:
  "fst (getLatestPrices exampleWorlds ''2025-09-09'' (newFetcher ''bananazone'') None defaultOptions)
     = examplePrices \<and>
   (\<exists>row entry.
      map_of examplePrices ''coinbase'' = Some row \<and>
      map fst row = [''BTC'', ''ETH'', ''ADA'', ''XRP''] \<and>
      map_of row ''BTC'' = Some entry \<and>
      (case fst (fetchCryptoData (exampleWorlds ''coinbase'' ''BTC'') (newFetcher ''bananazone'')
                   ''coinbase'' ''BTC'' ''1min'' ''2025-09-09'' defaultOptions) of
         Inl e \<Rightarrow> entry = None
       | Inr d \<Rightarrow>
           entry =
             (if records d = [] then None
              else Some \<lparr> ps_price = r_mid (last (records d)),
                          ps_timestamp = r_t (last (records d)),
                          ps_spread = r_spread_L5_pct (last (records d)),
                          ps_volume = js_add (r_vol_L50_bids (last (records d)))
                                             (r_vol_L50_asks (last (records d))),
                          ps_recordCount = length (records d),
                          ps_fetchTime = md_fetchTime (metadata d) \<rparr>) \<and>
           ((\<forall>(k, v) \<in> set (cache (newFetcher ''bananazone'')). records v \<noteq> [])
              \<longrightarrow> records d \<noteq> []))) \<and>
   fetcherAfter exampleWorlds ''2025-09-09'' defaultOptions (newFetcher ''bananazone'')
     [(''coinbase'', ''BTC'')]
   = (newFetcher ''bananazone'')
       \<lparr> cache := [(cacheKeyOf (pathOf ''coinbase'' ''BTC'' ''1min'' ''2025-09-09'') 1757439877000,
                    exampleResult)] \<rparr> \<and>
   fst (fetchCryptoData (exampleWorlds ''coinbase'' ''ETH'')
          ((newFetcher ''bananazone'')
             \<lparr> cache := [(cacheKeyOf (pathOf ''coinbase'' ''BTC'' ''1min'' ''2025-09-09'') 1757439877000,
                          exampleResult)] \<rparr>)
          ''coinbase'' ''ETH'' ''1min'' ''2025-09-09'' defaultOptions)
   = Inl FetchExhausted \<and>
   (\<exists>row. map_of examplePrices ''coinbase'' = Some row \<and>
          map fst row = [''BTC'', ''ETH'', ''ADA'', ''XRP''] \<and>
          map_of row ''ETH'' = Some None)"
proof -
  let ?run = "getLatestPrices exampleWorlds ''2025-09-09'' (newFetcher ''bananazone'') None
                defaultOptions"
  let ?f1 = "(newFetcher ''bananazone'')
       \<lparr> cache := [(cacheKeyOf (pathOf ''coinbase'' ''BTC'' ''1min'' ''2025-09-09'') 1757439877000,
                    exampleResult)] \<rparr>"
  have run: "?run = (examplePrices, fst (snd ?run), snd (snd ?run))"
    using example_prices by (metis prod.collapse)
  have d: "''2025-09-09'' = (case None of None \<Rightarrow> ''2025-09-09''
                            | Some d \<Rightarrow> if d = [] then ''2025-09-09'' else d)"
    by simp
  have x: "[''coinbase'', ''kraken''] = [] @ ''coinbase'' # [''kraken'']" by simp
  have a1: "[''BTC'', ''ETH'', ''ADA'', ''XRP''] = [] @ ''BTC'' # [''ETH'', ''ADA'', ''XRP'']" by simp
  have a2: "[''BTC'', ''ETH'', ''ADA'', ''XRP''] = [''BTC''] @ ''ETH'' # [''ADA'', ''XRP'']" by simp
  have s1: "newFetcher ''bananazone'' =
      fetcherAfter exampleWorlds ''2025-09-09'' defaultOptions (newFetcher ''bananazone'')
        (List.product [] [''BTC'', ''ETH'', ''ADA'', ''XRP''] @ map (Pair ''coinbase'') [])"
    by (simp add: fetcherAfter_Nil)
  have s2: "?f1 =
      fetcherAfter exampleWorlds ''2025-09-09'' defaultOptions (newFetcher ''bananazone'')
        (List.product [] [''BTC'', ''ETH'', ''ADA'', ''XRP''] @ map (Pair ''coinbase'') [''BTC''])"
    using example_after_first by simp
  note inst1 = getLatestPrices_entries [OF run d x a1 s1]
  note inst2 = getLatestPrices_entries [OF run d x a2 s2]
  let ?Q = "\<lambda>f0 asset row entry.
      map_of examplePrices ''coinbase'' = Some row \<and>
      map fst row = [''BTC'', ''ETH'', ''ADA'', ''XRP''] \<and>
      map_of row asset = Some entry \<and>
      (case fst (fetchCryptoData (exampleWorlds ''coinbase'' asset) f0
                   ''coinbase'' asset ''1min'' ''2025-09-09'' defaultOptions) of
         Inl e \<Rightarrow> entry = None
       | Inr d \<Rightarrow>
           entry =
             (if records d = [] then None
              else Some \<lparr> ps_price = r_mid (last (records d)),
                          ps_timestamp = r_t (last (records d)),
                          ps_spread = r_spread_L5_pct (last (records d)),
                          ps_volume = js_add (r_vol_L50_bids (last (records d)))
                                             (r_vol_L50_asks (last (records d))),
                          ps_recordCount = length (records d),
                          ps_fetchTime = md_fetchTime (metadata d) \<rparr>) \<and>
           ((\<forall>(k, v) \<in> set (cache (newFetcher ''bananazone'')). records v \<noteq> [])
              \<longrightarrow> records d \<noteq> []))"
  from inst1 have p1: "\<exists>row entry. ?Q (newFetcher ''bananazone'') ''BTC'' row entry"
    by (rule conjunct2 [THEN conjunct2])
  from inst2 have "\<exists>row entry. ?Q ?f1 ''ETH'' row entry"
    by (rule conjunct2 [THEN conjunct2])
  then obtain row where "\<exists>entry. ?Q ?f1 ''ETH'' row entry" ..
  then obtain entry where q: "?Q ?f1 ''ETH'' row entry" ..
  note p2 = q [THEN conjunct1] q [THEN conjunct2, THEN conjunct1]
    q [THEN conjunct2, THEN conjunct2, THEN conjunct1]
  from q [THEN conjunct2, THEN conjunct2, THEN conjunct2]
  have "entry = None" unfolding example_second_fails by (simp only: sum.case)
  then have "map_of row ''ETH'' = Some None" using p2(3) by (simp only:)
  with p2(1,2) have c: "map_of examplePrices ''coinbase'' = Some row \<and>
          map fst row = [''BTC'', ''ETH'', ''ADA'', ''XRP''] \<and>
          map_of row ''ETH'' = Some None"
    by (intro conjI)
  have p3: "\<exists>row. map_of examplePrices ''coinbase'' = Some row \<and>
          map fst row = [''BTC'', ''ETH'', ''ADA'', ''XRP''] \<and>
          map_of row ''ETH'' = Some None"
    by (rule exI [of _ row]) (rule c)
  show ?thesis
    by (rule conjI [OF example_prices conjI [OF p1 conjI [OF example_after_first
          conjI [OF example_second_fails p3]]]])
qed

end
